theory Spec2Isabelle
  imports Complex_Main
begin

section \<open>Python floats: IEEE 754 binary64, round to nearest, ties to even\<close>

text \<open>
  Every number of the program is a Python \<^verbatim>\<open>float\<close>. A float is a finite value, an infinity
  or NaN; an arithmetic operation computes the exact real result and rounds it to the nearest
  double (53 significant bits, exponents from \<open>-1022\<close> to \<open>1023\<close>, subnormals below, overflow
  to an infinity). A finite double is \<open>Fin r\<close> for the real \<open>r\<close> it denotes; the theorems
  below hold for every real \<open>r\<close>, representable or not. The two zeros \<open>+0.0\<close> and \<open>-0.0\<close> are
  one value here: Python raises on a zero divisor of either sign and no comparison tells the
  two zeros apart, so that only the printed form of a zero could differ, and the printing of
  floats is a parameter of the model (\<open>format_f\<close> below).
\<close>

datatype double = Fin real | PInf | NInf | NaN

definition half_even :: "real \<Rightarrow> int" where
  "half_even r = (let f = \<lfloor>r\<rfloor>; d = r - of_int f in
     if d < 1/2 then f else if 1/2 < d then f + 1 else if even f then f else f + 1)"

text \<open>The exponent of the binade of a magnitude, searched downwards and clamped at \<open>-1022\<close>.\<close>

function binade :: "int \<Rightarrow> real \<Rightarrow> int" where
  "binade e a = (if e \<le> -1022 then -1022 else if 2 powi e \<le> a then e else binade (e - 1) a)"
  by pat_completeness auto
termination
  by (relation "measure (\<lambda>(e, a). nat (e + 1022))") auto

definition quantum :: "real \<Rightarrow> real" where
  "quantum a = 2 powi (binade 1023 a - 52)"

definition round_mag :: "real \<Rightarrow> real" where
  "round_mag a = of_int (half_even (a / quantum a)) * quantum a"

definition overflow_limit :: real where
  "overflow_limit = 2 powi 1024"

definition rnd :: "real \<Rightarrow> double" where
  "rnd x = (let y = round_mag \<bar>x\<bar>
            in if overflow_limit \<le> y then (if x < 0 then NInf else PInf)
               else Fin (if x < 0 then - y else y))"

text \<open>A decimal literal of the source denotes the double nearest to its decimal value.\<close>

definition float_lit :: "real \<Rightarrow> double" where
  "float_lit x = rnd x"

datatype exn = ZeroDivisionError | IndexError | TypeError | ValueError | OSError
  | RuntimeError | ImportError | KeyboardInterrupt | SystemExit

text \<open>\<^verbatim>\<open>except Exception\<close> catches every exception but the ones that derive from
  \<^verbatim>\<open>BaseException\<close> only.\<close>

fun is_Exception :: "exn \<Rightarrow> bool" where
  "is_Exception KeyboardInterrupt = False"
| "is_Exception SystemExit = False"
| "is_Exception _ = True"

definition bind_exn :: "exn + 'a \<Rightarrow> ('a \<Rightarrow> exn + 'b) \<Rightarrow> exn + 'b" where
  "bind_exn m f = (case m of Inl e \<Rightarrow> Inl e | Inr x \<Rightarrow> f x)"

fun py_neg :: "double \<Rightarrow> double" where
  "py_neg (Fin a) = Fin (- a)"
| "py_neg PInf = NInf"
| "py_neg NInf = PInf"
| "py_neg NaN = NaN"

fun py_add :: "double \<Rightarrow> double \<Rightarrow> double" where
  "py_add (Fin a) (Fin b) = rnd (a + b)"
| "py_add NaN _ = NaN"
| "py_add _ NaN = NaN"
| "py_add PInf NInf = NaN"
| "py_add NInf PInf = NaN"
| "py_add PInf _ = PInf"
| "py_add NInf _ = NInf"
| "py_add _ PInf = PInf"
| "py_add _ NInf = NInf"

definition py_sub :: "double \<Rightarrow> double \<Rightarrow> double" where
  "py_sub a b = py_add a (py_neg b)"

fun inf_times :: "bool \<Rightarrow> double \<Rightarrow> double" where
  "inf_times neg (Fin b) = (if b = 0 then NaN else if (b < 0) = neg then PInf else NInf)"
| "inf_times neg PInf = (if neg then NInf else PInf)"
| "inf_times neg NInf = (if neg then PInf else NInf)"
| "inf_times neg NaN = NaN"

fun py_mul :: "double \<Rightarrow> double \<Rightarrow> double" where
  "py_mul (Fin a) (Fin b) = rnd (a * b)"
| "py_mul PInf b = inf_times False b"
| "py_mul NInf b = inf_times True b"
| "py_mul NaN _ = NaN"
| "py_mul a PInf = inf_times False a"
| "py_mul a NInf = inf_times True a"
| "py_mul _ NaN = NaN"

text \<open>The quotient of IEEE 754 for a divisor that is not zero (Python never divides by zero:
  see \<open>py_truediv\<close>).\<close>

fun ieee_div :: "double \<Rightarrow> double \<Rightarrow> double" where
  "ieee_div (Fin a) (Fin b) = (if b = 0 then NaN else rnd (a / b))"
| "ieee_div NaN _ = NaN"
| "ieee_div _ NaN = NaN"
| "ieee_div (Fin a) _ = Fin 0"
| "ieee_div PInf (Fin b) = (if b < 0 then NInf else PInf)"
| "ieee_div NInf (Fin b) = (if b < 0 then PInf else NInf)"
| "ieee_div _ _ = NaN"

text \<open>\<^verbatim>\<open>a / b\<close> on floats raises \<^verbatim>\<open>ZeroDivisionError\<close> when \<open>b\<close> is zero.\<close>

definition py_truediv :: "double \<Rightarrow> double \<Rightarrow> exn + double" where
  "py_truediv a b = (if b = Fin 0 then Inl ZeroDivisionError else Inr (ieee_div a b))"

fun py_lt :: "double \<Rightarrow> double \<Rightarrow> bool" where
  "py_lt NaN _ = False"
| "py_lt _ NaN = False"
| "py_lt (Fin a) (Fin b) = (a < b)"
| "py_lt _ NInf = False"
| "py_lt PInf _ = False"
| "py_lt NInf _ = True"
| "py_lt _ PInf = True"

definition py_gt :: "double \<Rightarrow> double \<Rightarrow> bool" where
  "py_gt a b = py_lt b a"

fun py_le :: "double \<Rightarrow> double \<Rightarrow> bool" where
  "py_le NaN _ = False"
| "py_le _ NaN = False"
| "py_le a b = (\<not> py_lt b a)"

definition py_ge :: "double \<Rightarrow> double \<Rightarrow> bool" where
  "py_ge a b = py_le b a"

text \<open>\<^verbatim>\<open>math.isfinite\<close>.\<close>

fun isfinite :: "double \<Rightarrow> bool" where
  "isfinite (Fin _) = True"
| "isfinite _ = False"

text \<open>\<^verbatim>\<open>x ** 2\<close>: CPython hands the power to the C library's \<^verbatim>\<open>pow\<close>. The program squares
  only \<^verbatim>\<open>VDD\<close>; the exact square of the double 3.3 lies 0.02 units in the last place from
  a double, so that every \<^verbatim>\<open>pow\<close> whose error is below 0.98 units returns the rounded
  product.\<close>

definition py_sq :: "double \<Rightarrow> double" where
  "py_sq a = py_mul a a"

text \<open>A finite double between two powers of two.\<close>

fun between :: "double \<Rightarrow> int \<Rightarrow> int \<Rightarrow> bool" where
  "between (Fin y) i j = (2 powi i \<le> y \<and> y \<le> 2 powi j)"
| "between _ i j = False"

section \<open>\<^verbatim>\<open>perf_cmos_inverter.py\<close>\<close>

definition VDD :: double where "VDD = float_lit (33 / 10)"
definition VTH_N :: double where "VTH_N = float_lit (498 / 1000)"
definition VTH_P :: double where "VTH_P = float_lit (6915 / 10000)"
definition U0_N :: double where "U0_N = float_lit (4758 / 10)"
definition U0_P :: double where "U0_P = float_lit (1482 / 10)"
definition TOX :: double where "TOX = float_lit (7575 / 10 ^ 12)"
definition EPS_OX :: double where "EPS_OX = py_mul (float_lit (39 / 10)) (float_lit (885 / 10 ^ 14))"

text \<open>\<^verbatim>\<open>COX = EPS_OX / TOX\<close> is evaluated when the module is loaded; \<open>TOX\<close> is not zero
  (lemma \<open>TOX_range\<close>), so the division does not raise.\<close>

definition COX :: double where "COX = ieee_div EPS_OX TOX"
definition MU_N :: double where "MU_N = py_mul U0_N (float_lit (1 / 10 ^ 4))"
definition MU_P :: double where "MU_P = py_mul U0_P (float_lit (1 / 10 ^ 4))"
definition KPRIME_N :: double where "KPRIME_N = py_mul MU_N COX"
definition KPRIME_P :: double where "KPRIME_P = py_mul MU_P COX"
definition CL :: double where "CL = float_lit (10 / 10 ^ 15)"
definition F_CLK :: double where "F_CLK = float_lit (100 * 10 ^ 6)"
definition ALPHA_DELAY :: double where "ALPHA_DELAY = float_lit (69 / 100)"

record perf =
  delay :: double
  power_dyn :: double
  power_stat :: double
  power_total :: double
  area :: double

definition compute_performances :: "double \<Rightarrow> double \<Rightarrow> double \<Rightarrow> exn + perf" where
  "compute_performances Wn Wp L =
    (let Wn_m = py_mul Wn (float_lit (1 / 10 ^ 6));
         Wp_m = py_mul Wp (float_lit (1 / 10 ^ 6));
         L_m = py_mul L (float_lit (1 / 10 ^ 6));
         VOD_N = py_sub VDD VTH_N;
         VOD_P = py_sub VDD VTH_P
     in
     bind_exn (if py_gt Wn_m (Fin 0)
               then bind_exn (py_truediv Wn_m L_m)
                      (\<lambda>q. py_truediv (float_lit 1) (py_mul (py_mul KPRIME_N q) VOD_N))
               else Inr (float_lit (10 ^ 12))) (\<lambda>R_n.
     bind_exn (if py_gt Wp_m (Fin 0)
               then bind_exn (py_truediv Wp_m L_m)
                      (\<lambda>q. py_truediv (float_lit 1) (py_mul (py_mul KPRIME_P q) VOD_P))
               else Inr (float_lit (10 ^ 12))) (\<lambda>R_p.
     let tp_n = py_mul (py_mul ALPHA_DELAY R_n) CL;
         tp_p = py_mul (py_mul ALPHA_DELAY R_p) CL
     in
     bind_exn (py_truediv (py_add tp_n tp_p) (float_lit 2)) (\<lambda>tp.
     let P_dyn = py_mul (py_mul CL (py_sq VDD)) F_CLK;
         I_LEAK = float_lit (10 / 10 ^ 9);
         P_stat = py_mul I_LEAK VDD;
         FACTOR_LAYOUT = float_lit 3;
         area_um2 = py_mul (py_mul (py_add Wn Wp) L) FACTOR_LAYOUT
     in Inr \<lparr>delay = tp, power_dyn = P_dyn, power_stat = P_stat,
              power_total = py_add P_dyn P_stat, area = area_um2\<rparr>))))"

text \<open>\<^verbatim>\<open>x[0], x[1], x[2]\<close> raise \<^verbatim>\<open>IndexError\<close> on a list of fewer than three elements. The
  result is the pair \<^verbatim>\<open>([f], g)\<close>.\<close>

definition compute_performances_for_optim :: "double list \<Rightarrow> exn + double list \<times> double list" where
  "compute_performances_for_optim x =
    (case x of
       Wn # Wp # L # _ \<Rightarrow>
         bind_exn (compute_performances Wn Wp L) (\<lambda>perf.
         let f_delay = py_mul (delay perf) (float_lit (10 ^ 9));
             f_power = py_mul (power_total perf) (float_lit (10 ^ 6));
             f_area = area perf;
             w1 = float_lit 1; w2 = float_lit (1 / 100); w3 = float_lit (1 / 1000);
             f = py_add (py_add (py_mul w1 f_delay) (py_mul w2 f_power)) (py_mul w3 f_area)
         in
         bind_exn (if py_gt Wn (float_lit (1 / 100)) then py_truediv Wp Wn else Inr (float_lit 1))
           (\<lambda>ratio.
         let g = [py_sub ratio (float_lit (12 / 10)), py_sub (float_lit (45 / 10)) ratio]
         in Inr ([f], g)))
     | _ \<Rightarrow> Inl IndexError)"

section \<open>\<^verbatim>\<open>optimize_inverter.py\<close>\<close>

text \<open>The bounds \<^verbatim>\<open>problem['xl']\<close> and \<^verbatim>\<open>problem['xu']\<close> handed to the optimizer.\<close>

definition xl :: "double list" where
  "xl = [float_lit (5 / 10), float_lit (5 / 10), float_lit (35 / 100)]"

definition xu :: "double list" where
  "xu = [float_lit 50, float_lit 150, float_lit 1]"

definition in_bounds :: "double \<Rightarrow> double \<Rightarrow> double \<Rightarrow> bool" where
  "in_bounds Wn Wp L = (list_all2 py_le xl [Wn, Wp, L] \<and> list_all2 py_le [Wn, Wp, L] xu)"

section \<open>\<^verbatim>\<open>optimize_inverter_ltspice.py\<close>\<close>

text \<open>
  The simulator, the file system, the log reader, the regular-expression search and the
  formatting of a float are outside the program. One call of
  \<^verbatim>\<open>run_simulation_and_extract_delay\<close> meets them in a fixed order; an \<open>env\<close> says what each
  of them does in that call: it returns a value (\<open>Inr\<close>) or raises (\<open>Inl\<close>).

  \<^item> \<open>format_f n x\<close> is \<^verbatim>\<open>format(x, '.nf')\<close>;
  \<^item> \<open>cir_exists\<close> is \<^verbatim>\<open>cir_file.exists()\<close>;
  \<^item> \<open>edit_netlist\<close> is \<^verbatim>\<open>SpiceEditor(cir_file)\<close> with the three \<^verbatim>\<open>set_parameter\<close> calls;
  \<^item> \<open>run_and_wait\<close> is the construction of the \<^verbatim>\<open>SimRunner\<close>, \<^verbatim>\<open>run\<close> and \<^verbatim>\<open>wait_completion\<close>;
  \<^item> \<open>failSim\<close> and \<open>completed_tasks\<close> are the runner's attributes afterwards, each task given by
    its \<^verbatim>\<open>log_file\<close> (\<open>None\<close> for Python's \<^verbatim>\<open>None\<close>);
  \<^item> \<open>log_exists\<close> is \<^verbatim>\<open>Path(log_file).exists()\<close>;
  \<^item> \<open>open_log_reader\<close>, \<open>measure_tphl\<close>, \<open>measure_tplh\<close> are \<^verbatim>\<open>LTSpiceLogReader(...)\<close> and its
    two \<^verbatim>\<open>get_measure_value\<close> calls;
  \<^item> \<open>read_text\<close> opens and reads the log; \<open>search_tphl\<close> and \<open>search_tplh\<close> are the two
    \<^verbatim>\<open>re.search\<close> calls on its content: \<open>None\<close> when there is no match, otherwise what
    \<^verbatim>\<open>float(m.group(1))\<close> does with the matched text;
  \<^item> \<open>print_error e\<close> is the \<^verbatim>\<open>print\<close> of line 110, the statement of the outer handler before
    its \<^verbatim>\<open>return\<close>, for the caught exception \<open>e\<close> (it raises, for instance, when the
    standard output is closed).
\<close>

text \<open>A value handed back by the log reader: \<^verbatim>\<open>None\<close>, a value that \<^verbatim>\<open>float()\<close> converts to
  the given double, or a value that \<^verbatim>\<open>float()\<close> rejects.\<close>

datatype pyval = PyNone | PyFloat double | PyObj

fun py_float :: "pyval \<Rightarrow> exn + double" where
  "py_float (PyFloat d) = Inr d"
| "py_float PyNone = Inl TypeError"
| "py_float PyObj = Inl ValueError"

record env =
  format_f :: "nat \<Rightarrow> double \<Rightarrow> string"
  cir_exists :: "exn + bool"
  edit_netlist :: "string \<Rightarrow> string \<Rightarrow> string \<Rightarrow> exn + unit"
  run_and_wait :: "exn + unit"
  failSim :: int
  completed_tasks :: "string option list"
  log_exists :: "exn + bool"
  open_log_reader :: "exn + unit"
  measure_tphl :: "exn + pyval"
  measure_tplh :: "exn + pyval"
  read_text :: "exn + unit"
  search_tphl :: "(exn + double) option"
  search_tplh :: "(exn + double) option"
  print_error :: "exn \<Rightarrow> exn + unit"

record outcome =
  success :: bool
  delay_ns :: double
  tphl :: double
  tplh :: double

definition FAILURE :: outcome where
  "FAILURE = \<lparr>success = False, delay_ns = float_lit (10 ^ 6),
              tphl = float_lit (10 ^ 6), tplh = float_lit (10 ^ 6)\<rparr>"

text \<open>Lines 45 to 47: the three dimensions in SPICE notation.\<close>

definition Wn_str :: "env \<Rightarrow> double \<Rightarrow> string" where
  "Wn_str w Wn_um = (if py_ge Wn_um (Fin 1) then format_f w 2 Wn_um @ ''u''
                     else format_f w 0 (py_mul Wn_um (Fin 1000)) @ ''n'')"

definition Wp_str :: "env \<Rightarrow> double \<Rightarrow> string" where
  "Wp_str w Wp_um = (if py_ge Wp_um (Fin 1) then format_f w 2 Wp_um @ ''u''
                     else format_f w 0 (py_mul Wp_um (Fin 1000)) @ ''n'')"

definition L_str :: "env \<Rightarrow> double \<Rightarrow> string" where
  "L_str w L_um = (if py_ge L_um (float_lit (1 / 10)) then format_f w 3 L_um @ ''u''
                   else format_f w 0 (py_mul L_um (Fin 1000)) @ ''n'')"

text \<open>The handler of the inner \<^verbatim>\<open>try\<close> (lines 84 to 93), entered with the values that
  \<open>tphl\<close> and \<open>tplh\<close> have when the exception is raised.\<close>

definition regex_fallback :: "env \<Rightarrow> pyval \<Rightarrow> pyval \<Rightarrow> exn + pyval \<times> pyval" where
  "regex_fallback w tphl0 tplh0 =
    bind_exn (read_text w) (\<lambda>_.
    bind_exn (case search_tphl w of None \<Rightarrow> Inr tphl0
              | Some r \<Rightarrow> bind_exn r (\<lambda>d. Inr (PyFloat d))) (\<lambda>tphl1.
    bind_exn (case search_tplh w of None \<Rightarrow> Inr tplh0
              | Some r \<Rightarrow> bind_exn r (\<lambda>d. Inr (PyFloat d))) (\<lambda>tplh1.
    Inr (tphl1, tplh1))))"

text \<open>Lines 78 to 93: the structured reader, and the textual fallback on any
  \<^verbatim>\<open>Exception\<close> it raises.\<close>

definition extract_measures :: "env \<Rightarrow> exn + pyval \<times> pyval" where
  "extract_measures w =
    (case open_log_reader w of
       Inl e \<Rightarrow> if is_Exception e then regex_fallback w PyNone PyNone else Inl e
     | Inr _ \<Rightarrow>
        (case measure_tphl w of
           Inl e \<Rightarrow> if is_Exception e then regex_fallback w PyNone PyNone else Inl e
         | Inr v1 \<Rightarrow>
            (case measure_tplh w of
               Inl e \<Rightarrow> if is_Exception e then regex_fallback w v1 PyNone else Inl e
             | Inr v2 \<Rightarrow> Inr (v1, v2))))"

text \<open>Lines 54 to 108: the body of the outer \<^verbatim>\<open>try\<close>.\<close>

definition try_body :: "env \<Rightarrow> string \<Rightarrow> string \<Rightarrow> string \<Rightarrow> exn + outcome" where
  "try_body w Wn_s Wp_s L_s =
    bind_exn (edit_netlist w Wn_s Wp_s L_s) (\<lambda>_.
    bind_exn (run_and_wait w) (\<lambda>_.
    if failSim w > 0 \<or> length (completed_tasks w) = 0 then Inr FAILURE
    else
      (case last (completed_tasks w) of
         None \<Rightarrow> Inr FAILURE
       | Some log_file \<Rightarrow>
          bind_exn (log_exists w) (\<lambda>ex.
          if \<not> ex then Inr FAILURE
          else
            bind_exn (extract_measures w) (\<lambda>(tphl0, tplh0).
            let tphl1 = (if tphl0 = PyNone then PyFloat (float_lit (1 / 10 ^ 6)) else tphl0);
                tplh1 = (if tplh0 = PyNone then PyFloat (float_lit (1 / 10 ^ 6)) else tplh0)
            in
            bind_exn (py_float tphl1) (\<lambda>a.
            bind_exn (py_float tplh1) (\<lambda>b.
            bind_exn (py_truediv (py_add a b) (float_lit 2)) (\<lambda>tpd.
            Inr \<lparr>success = True, delay_ns = py_mul tpd (float_lit (10 ^ 9)),
                 tphl = py_mul a (float_lit (10 ^ 9)),
                 tplh = py_mul b (float_lit (10 ^ 9))\<rparr>))))))))"

text \<open>The first argument is the module flag \<^verbatim>\<open>SPICELIB_AVAILABLE\<close>. An exception of the
  handler's \<^verbatim>\<open>print\<close> is raised outside the \<^verbatim>\<open>try\<close> and reaches the caller.\<close>

definition run_simulation_and_extract_delay ::
    "bool \<Rightarrow> env \<Rightarrow> double \<Rightarrow> double \<Rightarrow> double \<Rightarrow> exn + outcome" where
  "run_simulation_and_extract_delay SPICELIB_AVAILABLE w Wn_um Wp_um L_um =
    (if \<not> SPICELIB_AVAILABLE then Inr FAILURE
     else
       let Wn_s = Wn_str w Wn_um; Wp_s = Wp_str w Wp_um; L_s = L_str w L_um
       in
       bind_exn (cir_exists w) (\<lambda>ex.
       if \<not> ex then Inr FAILURE
       else
         (case try_body w Wn_s Wp_s L_s of
            Inl e \<Rightarrow>
              if is_Exception e then bind_exn (print_error w e) (\<lambda>_. Inr FAILURE) else Inl e
          | Inr result \<Rightarrow> Inr result)))"

text \<open>
  The grid search of \<^verbatim>\<open>optimize_with_simulator\<close> (lines 137 to 157). Its state is the
  incumbent, and the list of the pairs handed to the simulator so far. The evaluator is a
  parameter: \<open>sim Wn Wp L\<close> is what the call \<^verbatim>\<open>run_simulation_and_extract_delay(Wn, Wp, L)\<close>
  does for that candidate.
\<close>

record search =
  best_delay :: double
  best_params :: "(double \<times> double \<times> double) option"
  evaluated :: "(double \<times> double) list"

definition grid_body ::
    "(double \<Rightarrow> double \<Rightarrow> double \<Rightarrow> exn + outcome) \<Rightarrow> double \<Rightarrow> double \<Rightarrow> double \<Rightarrow> search
      \<Rightarrow> exn + search" where
  "grid_body sim L_val Wn Wp st =
    bind_exn (py_truediv Wp Wn) (\<lambda>ratio.
    if py_lt ratio (float_lit (12 / 10)) \<or> py_gt ratio (float_lit (45 / 10)) then Inr st
    else
      bind_exn (sim Wn Wp L_val) (\<lambda>result.
      let st1 = st\<lparr>evaluated := evaluated st @ [(Wn, Wp)]\<rparr>
      in
      if success result then
        (if py_lt (delay_ns result) (best_delay st1)
         then Inr (st1\<lparr>best_delay := delay_ns result, best_params := Some (Wn, Wp, L_val)\<rparr>)
         else Inr st1)
      else Inr st1))"

fun inner_loop ::
    "(double \<Rightarrow> double \<Rightarrow> double \<Rightarrow> exn + outcome) \<Rightarrow> double \<Rightarrow> double \<Rightarrow> double list \<Rightarrow> search
      \<Rightarrow> exn + search" where
  "inner_loop sim L_val Wn [] st = Inr st"
| "inner_loop sim L_val Wn (Wp # Wps) st =
     bind_exn (grid_body sim L_val Wn Wp st) (inner_loop sim L_val Wn Wps)"

fun outer_loop ::
    "(double \<Rightarrow> double \<Rightarrow> double \<Rightarrow> exn + outcome) \<Rightarrow> double \<Rightarrow> double list \<Rightarrow> double list \<Rightarrow> search
      \<Rightarrow> exn + search" where
  "outer_loop sim L_val [] Wps st = Inr st"
| "outer_loop sim L_val (Wn # Wns) Wps st =
     bind_exn (inner_loop sim L_val Wn Wps st) (outer_loop sim L_val Wns Wps)"

text \<open>The test of line 147, read positively: the pair is not skipped.\<close>

definition kept :: "double \<Rightarrow> double \<Rightarrow> bool" where
  "kept Wn Wp =
    (case py_truediv Wp Wn of
       Inl e \<Rightarrow> False
     | Inr ratio \<Rightarrow> \<not> (py_lt ratio (float_lit (12 / 10)) \<or> py_gt ratio (float_lit (45 / 10))))"

text \<open>The ratio \<open>Wp / Wn\<close> lies in the closed interval from 1.2 to 4.5.\<close>

definition ratio_in_window :: "double \<Rightarrow> double \<Rightarrow> bool" where
  "ratio_in_window Wn Wp =
    (case py_truediv Wp Wn of
       Inl e \<Rightarrow> False
     | Inr ratio \<Rightarrow> py_le (float_lit (12 / 10)) ratio \<and> py_le ratio (float_lit (45 / 10)))"

definition Wn_values :: "double list" where
  "Wn_values = [float_lit 1, float_lit 2, float_lit 3]"

definition Wp_values :: "double list" where
  "Wp_values = [float_lit 3, float_lit 6, float_lit 9]"

definition L_val :: double where
  "L_val = float_lit (35 / 100)"

definition grid_search :: "(double \<Rightarrow> double \<Rightarrow> double \<Rightarrow> exn + outcome) \<Rightarrow> exn + search" where
  "grid_search sim =
     outer_loop sim L_val Wn_values Wp_values
       \<lparr>best_delay = float_lit (10 ^ 9), best_params = None, evaluated = []\<rparr>"

text \<open>
  Around the search \<^verbatim>\<open>optimize_with_simulator\<close> meets the file system and the import system;
  a \<open>host\<close> says what they do in one call:

  \<^item> \<open>prepare\<close> is lines 125 to 131: the output directory is created and the technology
    library copied into it when it is missing or stale;
  \<^item> \<open>import_perf\<close> is the import of \<^verbatim>\<open>compute_performances\<close> in line 166;
  \<^item> \<open>write_results p d\<close> is lines 173 to 176: the best parameters \<open>p\<close> and the best delay
    \<open>d\<close> are written to the result file.

  The function returns nothing; \<open>report\<close> is what it tells the user: the installation hint,
  the best solution with its delay, or the message that no simulation succeeded. The standard
  output is taken to accept every line the function and its loop print (lines 121, 133 to
  135, 149, 152, 157, 159 to 163, 168, 169, 178 and 179); these prints are not modelled.
\<close>

record host =
  prepare :: "exn + unit"
  import_perf :: "exn + unit"
  write_results :: "double \<times> double \<times> double \<Rightarrow> double \<Rightarrow> exn + unit"

datatype report = NotInstalled | Best "double \<times> double \<times> double" double | NoSuccess

text \<open>Lines 165 to 171: the analytical figures of the best solution, for comparison. Only an
  \<^verbatim>\<open>ImportError\<close> is caught there.\<close>

definition analytical_comparison :: "host \<Rightarrow> double \<times> double \<times> double \<Rightarrow> exn + unit" where
  "analytical_comparison h p =
     (case bind_exn (import_perf h) (\<lambda>_.
             case p of (Wn, Wp, L) \<Rightarrow> bind_exn (compute_performances Wn Wp L) (\<lambda>perf. Inr ())) of
        Inl e \<Rightarrow> if e = ImportError then Inr () else Inl e
      | Inr _ \<Rightarrow> Inr ())"

definition optimize_with_simulator ::
    "bool \<Rightarrow> host \<Rightarrow> (double \<Rightarrow> double \<Rightarrow> double \<Rightarrow> exn + outcome) \<Rightarrow> exn + report" where
  "optimize_with_simulator SPICELIB_AVAILABLE h sim =
    (if \<not> SPICELIB_AVAILABLE then Inr NotInstalled
     else
       bind_exn (prepare h) (\<lambda>_.
       bind_exn (grid_search sim) (\<lambda>st.
       (case best_params st of
          Some p \<Rightarrow>
            bind_exn (analytical_comparison h p) (\<lambda>_.
            bind_exn (write_results h p (best_delay st)) (\<lambda>_.
            Inr (Best p (best_delay st))))
        | None \<Rightarrow> Inr NoSuccess))))"


section \<open>Concrete runs\<close>

text \<open>Fixed-point formatting of a float with \<open>n\<close> decimals, as \<^verbatim>\<open>format(x, '.nf')\<close> prints
  it: the exact value, rounded half-even to \<open>n\<close> decimals. The type \<open>double\<close> has one zero, so
  that the minus sign Python prints for the negative zero is not reproduced; a negative value
  that rounds to zero keeps its sign, as in Python.\<close>

fun dec_digits :: "nat \<Rightarrow> string" where
  "dec_digits n = (if n < 10 then [''0123456789'' ! n]
                   else dec_digits (n div 10) @ [''0123456789'' ! (n mod 10)])"

fun format_fixed :: "nat \<Rightarrow> double \<Rightarrow> string" where
  "format_fixed n (Fin x) =
     (let m = nat (half_even (\<bar>x\<bar> * 10 ^ n)); ip = m div 10 ^ n; fp = m mod 10 ^ n
      in (if x < 0 then ''-'' else '''') @ dec_digits ip @
         (if n = 0 then ''''
          else ''.'' @ replicate (n - length (dec_digits fp)) (CHR ''0'') @ dec_digits fp))"
| "format_fixed n PInf = ''inf''"
| "format_fixed n NInf = ''-inf''"
| "format_fixed n NaN = ''nan''"

text \<open>A run in which the netlist is there, the simulation completes and the log reader
  returns both measures.\<close>

definition env_ok :: env where
  "env_ok = \<lparr>format_f = format_fixed, cir_exists = Inr True,
             edit_netlist = (\<lambda>Wn_s Wp_s L_s. Inr ()), run_and_wait = Inr (),
             failSim = 0, completed_tasks = [Some ''inverter_cmos.log''],
             log_exists = Inr True, open_log_reader = Inr (),
             measure_tphl = Inr (PyFloat (float_lit (1 / 10 ^ 10))),
             measure_tplh = Inr (PyFloat (float_lit (1 / 10 ^ 10))),
             read_text = Inr (), search_tphl = None, search_tplh = None,
             print_error = (\<lambda>e. Inr ())\<rparr>"



text \<open>The simulator cannot be started.\<close>

definition env_crash :: env where
  "env_crash = env_ok\<lparr>run_and_wait := Inl RuntimeError\<rparr>"


text \<open>The log holds \<^verbatim>\<open>tplh\<close> only: the reader raises on the missing \<^verbatim>\<open>tphl\<close>, and the
  textual search finds \<^verbatim>\<open>tplh\<close> alone.\<close>

definition env_only_tplh :: env where
  "env_only_tplh = env_ok\<lparr>measure_tphl := Inl IndexError, search_tphl := None,
                            search_tplh := Some (Inr (float_lit (1 / 10 ^ 10)))\<rparr>"

text \<open>The log holds neither measure.\<close>

definition env_no_measures :: env where
  "env_no_measures = env_ok\<lparr>measure_tphl := Inl IndexError, search_tphl := None,
                              search_tplh := None\<rparr>"

text \<open>A successful outcome with the given delay in nanoseconds.\<close>

definition measured :: "real \<Rightarrow> outcome" where
  "measured d = \<lparr>success = True, delay_ns = Fin d, tphl = Fin d, tplh = Fin d\<rparr>"

text \<open>A table of outcomes for the grid: two candidates fail, the others are measured.\<close>

definition sim_table :: "double \<Rightarrow> double \<Rightarrow> double \<Rightarrow> exn + outcome" where
  "sim_table Wn Wp L =
    (if (Wn, Wp) = (Fin 1, Fin 3) then Inr (measured (1 / 2))
     else if (Wn, Wp) = (Fin 2, Fin 3) then Inr (measured (1 / 4))
     else if (Wn, Wp) = (Fin 2, Fin 6) then Inr FAILURE
     else if (Wn, Wp) = (Fin 2, Fin 9) then Inr (measured (1 / 8))
     else if (Wn, Wp) = (Fin 3, Fin 6) then Inr (measured (1 / 4))
     else Inr FAILURE)"

text \<open>Every simulation fails.\<close>

definition sim_all_fail :: "double \<Rightarrow> double \<Rightarrow> double \<Rightarrow> exn + outcome" where
  "sim_all_fail Wn Wp L = Inr FAILURE"

text \<open>The log reader returns two measures of 2 microseconds.\<close>

definition env_slow :: env where
  "env_slow = env_ok\<lparr>measure_tphl := Inr (PyFloat (float_lit (2 / 10 ^ 6))),
                       measure_tplh := Inr (PyFloat (float_lit (2 / 10 ^ 6)))\<rparr>"

text \<open>A grid run: the first candidate is measured at 2 microseconds, the log of the second
  holds no measure, and the simulator cannot be started for the others.\<close>

definition sim_displace :: "double \<Rightarrow> double \<Rightarrow> double \<Rightarrow> exn + outcome" where
  "sim_displace Wn Wp L =
     run_simulation_and_extract_delay True
       (if (Wn, Wp) = (Fin 1, Fin 3) then env_slow
        else if (Wn, Wp) = (Fin 2, Fin 3) then env_no_measures
        else env_crash) Wn Wp L"

text \<open>A host on which the preparation, the import and the result file succeed.\<close>

definition host_ok :: host where
  "host_ok = \<lparr>prepare = Inr (), import_perf = Inr (), write_results = (\<lambda>p d. Inr ())\<rparr>"

text \<open>A host without the directory \<^verbatim>\<open>ltspice\<close>: creating the output directory raises
  \<^verbatim>\<open>FileNotFoundError\<close>, an \<^verbatim>\<open>OSError\<close>.\<close>

definition host_no_directory :: host where
  "host_no_directory = host_ok\<lparr>prepare := Inl OSError\<rparr>"

declare binade.simps [simp del]

section \<open>Rounding\<close>

lemma binade_range: "- 1022 \<le> binade e a \<and> binade e a \<le> max e (- 1022)"
proof (induction e a rule: binade.induct)
  case (1 e a)
  then show ?case using binade.simps[of e a] by auto
qed

lemma binade_lower: "2 powi (- 1022) \<le> a \<Longrightarrow> 2 powi (binade e a) \<le> a"
proof (induction e a rule: binade.induct)
  case (1 e a)
  then show ?case using binade.simps[of e a] by auto
qed

lemma binade_upper: "a < 2 powi (e + 1) \<Longrightarrow> - 1022 \<le> e \<Longrightarrow> a < 2 powi (binade e a + 1)"
proof (induction e a rule: binade.induct)
  case (1 e a)
  show ?case
  proof (cases "e \<le> -1022")
    case True
    with 1 have "e = -1022" by simp
    with 1 show ?thesis using binade.simps[of e a] by simp
  next
    case False
    show ?thesis
    proof (cases "2 powi e \<le> a")
      case True
      with False 1 show ?thesis using binade.simps[of e a] by simp
    next
      case F2: False
      with False 1 have "a < 2 powi (binade (e - 1) a + 1)" by simp
      with False F2 show ?thesis using binade.simps[of e a] by simp
    qed
  qed
qed

lemma powi2_mono: "i \<le> j \<Longrightarrow> (2::real) powi i \<le> 2 powi j"
  by (rule power_int_increasing) simp_all

lemma powi2_less_cancel: "(2::real) powi i < 2 powi j \<Longrightarrow> i < j"
  using powi2_mono[of j i] by (cases "i < j") auto

lemma powi2_le_pos: "2 powi i \<le> (x::real) \<Longrightarrow> 0 < x"
  by (rule less_le_trans[of 0 "2 powi i"]) simp_all

lemma binade_eq:
  assumes "2 powi k \<le> a" "a < 2 powi (k + 1)" "- 1022 \<le> k" "k \<le> e"
  shows "binade e a = k"
proof -
  have lo: "2 powi (- 1022) \<le> a" using assms(1,3) powi2_mono[of "-1022" k] by simp
  have up: "a < 2 powi (e + 1)" using assms(2,4) powi2_mono[of "k+1" "e+1"] by simp
  let ?b = "binade e a"
  have 1: "2 powi ?b \<le> a" by (rule binade_lower[OF lo])
  have 2: "a < 2 powi (?b + 1)" using binade_upper[OF up] assms by simp
  from 1 assms(2) have "2 powi ?b < (2::real) powi (k + 1)" by simp
  then have "?b < k + 1" by (rule powi2_less_cancel)
  moreover from 2 assms(1) have "2 powi k < (2::real) powi (?b + 1)" by simp
  then have "k < ?b + 1" by (rule powi2_less_cancel)
  ultimately show ?thesis by simp
qed

lemma binade_sub: "a < 2 powi (- 1022) \<Longrightarrow> binade e a = - 1022"
proof (induction e a rule: binade.induct)
  case (1 e a)
  show ?case
  proof (cases "e \<le> -1022")
    case True
    then show ?thesis using binade.simps[of e a] by simp
  next
    case False
    then have "2 powi (- 1022) \<le> (2::real) powi e" by (intro powi2_mono) simp
    with 1(2) have "\<not> 2 powi e \<le> a" by simp
    with False 1 show ?thesis using binade.simps[of e a] by simp
  qed
qed

lemma half_even_int [simp]: "half_even (of_int m) = m"
  by (simp add: half_even_def)

lemma half_even_near: "\<bar>of_int (half_even r) - r\<bar> \<le> 1/2"
  unfolding half_even_def Let_def by (auto simp: abs_if) linarith+

lemma half_even_mono_int: "of_int m \<le> r \<Longrightarrow> m \<le> half_even r"
  unfolding half_even_def Let_def by (auto simp: le_floor_iff) linarith+

lemma half_even_mono_int2: "r \<le> of_int m \<Longrightarrow> half_even r \<le> m"
proof -
  assume a: "r \<le> of_int m"
  have f: "\<lfloor>r\<rfloor> \<le> m" using a by (simp add: floor_le_iff)
  show ?thesis
  proof (cases "\<lfloor>r\<rfloor> = m")
    case True
    then have "r = of_int m" using a of_int_floor_le[of r] by simp
    then show ?thesis by simp
  next
    case False
    with f have "\<lfloor>r\<rfloor> + 1 \<le> m" by simp
    then show ?thesis unfolding half_even_def Let_def by auto
  qed
qed

lemma half_even_nonneg: "0 \<le> r \<Longrightarrow> 0 \<le> half_even r"
  using half_even_mono_int[of 0 r] by simp

lemma overflow_limit_pos: "0 < overflow_limit"
  by (simp add: overflow_limit_def del: power_int_numeral)

lemma quantum_pos: "0 < quantum a"
  by (simp add: quantum_def)

lemma round_mag_zero [simp]: "round_mag 0 = 0"
  using half_even_int[of 0] by (simp add: round_mag_def)

lemma round_mag_nonneg: "0 \<le> a \<Longrightarrow> 0 \<le> round_mag a"
  unfolding round_mag_def using quantum_pos[of a] half_even_nonneg[of "a / quantum a"] by simp

lemma rnd_zero [simp]: "rnd 0 = Fin 0"
  using overflow_limit_pos by (simp add: rnd_def)

lemma rnd_pos_unfold: "0 \<le> x \<Longrightarrow> rnd x = (if overflow_limit \<le> round_mag x then PInf else Fin (round_mag x))"
  by (simp add: rnd_def Let_def)

lemma rnd_minus: "rnd (- x) = (case rnd x of Fin y \<Rightarrow> Fin (- y) | PInf \<Rightarrow> NInf | NInf \<Rightarrow> PInf | NaN \<Rightarrow> NaN)"
proof (cases "x = 0")
  case True
  then show ?thesis by simp
next
  case False
  then show ?thesis unfolding rnd_def Let_def by (cases "x < 0") simp_all
qed

lemma rnd_nonpos:
  assumes "x \<le> 0"
  shows "rnd x = NInf \<or> (\<exists>y. rnd x = Fin y \<and> y \<le> 0)"
proof (cases "x = 0")
  case True
  then show ?thesis by simp
next
  case False
  with assms have "x < 0" by simp
  moreover have "0 \<le> round_mag \<bar>x\<bar>" by (rule round_mag_nonneg) simp
  ultimately show ?thesis unfolding rnd_def Let_def by simp
qed

lemma round_mag_normal:
  assumes "2 powi k \<le> x" "x < 2 powi (k + 1)" "- 1022 \<le> k" "k \<le> 1023"
  shows "round_mag x = of_int (half_even (x / 2 powi (k - 52))) * 2 powi (k - 52)"
proof -
  have "binade 1023 x = k" using assms by (intro binade_eq) simp_all
  then show ?thesis by (simp add: round_mag_def quantum_def)
qed

lemma scaled_bounds:
  assumes "2 powi k \<le> (x::real)" "x < 2 powi (k + 1)"
  shows "of_int (2 ^ 52) \<le> x / 2 powi (k - 52)" "x / 2 powi (k - 52) < of_int (2 ^ 53)"
proof -
  have q: "(2::real) powi (k - 52) = 2 powi k / 2 ^ 52"
    by (simp add: power_int_diff)
  have p: "(2::real) powi (k + 1) = 2 * 2 powi k"
    by (simp add: power_int_add)
  have k0: "0 < (2::real) powi k" by simp
  show "of_int (2 ^ 52) \<le> x / 2 powi (k - 52)"
    using assms(1) k0 by (simp add: q field_simps)
  show "x / 2 powi (k - 52) < of_int (2 ^ 53)"
    using assms(2) k0 unfolding p q by (simp add: field_simps)
qed

lemma round_mag_bounds:
  assumes "2 powi k \<le> x" "x < 2 powi (k + 1)" "- 1022 \<le> k" "k \<le> 1023"
  shows "2 powi k \<le> round_mag x" "round_mag x \<le> 2 powi (k + 1)"
    "\<bar>round_mag x - x\<bar> \<le> 2 powi (k - 53)"
proof -
  let ?q = "(2::real) powi (k - 52)"
  let ?m = "half_even (x / ?q)"
  have y: "round_mag x = of_int ?m * ?q" by (rule round_mag_normal[OF assms])
  have q0: "0 < ?q" by simp
  have qk: "2 powi k = of_int (2 ^ 52) * ?q" by (simp add: power_int_diff)
  have qk1: "2 powi (k + 1) = of_int (2 ^ 53) * ?q" by (simp add: power_int_diff power_int_add)
  have m1: "2 ^ 52 \<le> ?m" using scaled_bounds(1)[OF assms(1,2)] by (rule half_even_mono_int)
  have m2: "?m \<le> 2 ^ 53" using scaled_bounds(2)[OF assms(1,2)] by (intro half_even_mono_int2) simp
  from m1 have "of_int (2 ^ 52) \<le> (of_int ?m :: real)" by (simp only: of_int_le_iff)
  then show "2 powi k \<le> round_mag x" unfolding y qk using q0 by (intro mult_right_mono) simp_all
  from m2 have "(of_int ?m :: real) \<le> of_int (2 ^ 53)" by (simp only: of_int_le_iff)
  then show "round_mag x \<le> 2 powi (k + 1)" unfolding y qk1 using q0 by (intro mult_right_mono) simp_all
  have "\<bar>of_int ?m - x / ?q\<bar> \<le> 1/2" by (rule half_even_near)
  then have "\<bar>of_int ?m - x / ?q\<bar> * ?q \<le> 1/2 * ?q" using q0 by (intro mult_right_mono) simp_all
  moreover have "(of_int ?m - x / ?q) * ?q = round_mag x - x"
    using q0 by (simp add: y left_diff_distrib)
  then have "\<bar>of_int ?m - x / ?q\<bar> * ?q = \<bar>round_mag x - x\<bar>"
    using q0 abs_mult[of "of_int ?m - x / ?q" ?q] by simp
  moreover have "1/2 * ?q = 2 powi (k - 53)" by (simp add: power_int_diff)
  ultimately show "\<bar>round_mag x - x\<bar> \<le> 2 powi (k - 53)" by simp
qed

lemma below_overflow: "(2::real) powi k < overflow_limit" if "k \<le> 1023"
  unfolding overflow_limit_def using that by (intro power_int_strict_increasing) simp_all

lemma rnd_between:
  assumes "2 powi i \<le> x" "x \<le> 2 powi j" "- 1022 \<le> i" "j \<le> 1023"
  shows "\<exists>y. rnd x = Fin y \<and> 2 powi i \<le> y \<and> y \<le> 2 powi j"
proof -
  have x0: "0 \<le> x" using powi2_le_pos[OF assms(1)] by simp
  have lo: "2 powi (- 1022) \<le> x" using assms(1,3) powi2_mono[of "- 1022" i] by simp
  have up: "x < 2 powi (1023 + 1)"
    using assms(2,4) below_overflow[of j] by (simp add: overflow_limit_def del: power_int_numeral)
  define k where "k = binade 1023 x"
  have k1: "2 powi k \<le> x" unfolding k_def by (rule binade_lower[OF lo])
  have k2: "x < 2 powi (k + 1)" unfolding k_def using binade_upper[OF up] by simp
  have k3: "- 1022 \<le> k" "k \<le> 1023" unfolding k_def using binade_range[of 1023 x] by simp_all
  note b = round_mag_bounds[OF k1 k2 k3]
  have "2 powi i < (2::real) powi (k + 1)" using assms(1) k2 by simp
  then have ik: "i \<le> k" using powi2_less_cancel[of i "k + 1"] by simp
  have kj: "k \<le> j"
  proof (rule ccontr)
    assume "\<not> k \<le> j"
    then have "(2::real) powi j < 2 powi k" by (intro power_int_strict_increasing) simp_all
    with k1 assms(2) show False by simp
  qed
  have yj: "round_mag x \<le> 2 powi j"
  proof (cases "k < j")
    case True
    then have "2 powi (k + 1) \<le> (2::real) powi j" by (intro powi2_mono) simp
    with b(2) show ?thesis by simp
  next
    case False
    with kj have kj': "k = j" by simp
    with k1 assms(2) have x: "x = 2 powi j" by simp
    have "x / 2 powi (k - 52) = of_int (2 ^ 52)" unfolding x kj' by (simp add: power_int_diff)
    then have "round_mag x = of_int (2 ^ 52) * 2 powi (k - 52)"
      unfolding round_mag_normal[OF k1 k2 k3] by (simp only: half_even_int)
    then show ?thesis unfolding kj' by (simp add: power_int_diff)
  qed
  have yi: "2 powi i \<le> round_mag x" using b(1) powi2_mono[OF ik] by simp
  have "round_mag x < overflow_limit" using yj below_overflow[OF assms(4)] by simp
  then have "rnd x = Fin (round_mag x)" using rnd_pos_unfold[OF x0] by simp
  with yi yj show ?thesis by blast
qed

lemma rnd_error:
  assumes "2 powi k \<le> x" "x < 2 powi (k + 1)" "- 1022 \<le> k" "k \<le> 1022"
  shows "\<exists>y. rnd x = Fin y \<and> \<bar>y - x\<bar> \<le> 2 powi (k - 53)"
proof -
  have x0: "0 \<le> x" using powi2_le_pos[OF assms(1)] by simp
  have k3: "k \<le> 1023" using assms(4) by simp
  note b = round_mag_bounds[OF assms(1,2,3) k3]
  have "k + 1 \<le> 1023" using assms(4) by simp
  then have "round_mag x < overflow_limit" using b(2) below_overflow[of "k + 1"] by simp
  then have "rnd x = Fin (round_mag x)" using rnd_pos_unfold[OF x0] by simp
  with b(3) show ?thesis by blast
qed

lemma half_even_small: "0 \<le> r \<Longrightarrow> r \<le> 1/2 \<Longrightarrow> half_even r = 0"
proof -
  assume a: "0 \<le> r" "r \<le> 1/2"
  then have "\<lfloor>r\<rfloor> = 0" by (intro floor_unique) simp_all
  with a show ?thesis by (simp add: half_even_def)
qed

lemma round_mag_tiny:
  assumes "0 \<le> a" "a \<le> 2 powi (- 1075)"
  shows "round_mag a = 0"
proof -
  have "(2::real) powi (- 1075) < 2 powi (- 1022)" by (intro power_int_strict_increasing) simp_all
  with assms have "a < 2 powi (- 1022)" by simp
  then have k: "binade 1023 a = - 1022" by (rule binade_sub)
  have q: "quantum a = 2 powi (- 1074)" by (simp add: quantum_def k del: power_int_numeral power_int_minus)
  have "(2::real) powi (- 1075) = 2 powi (- 1074 - 1)" by simp
  also have "\<dots> = 2 powi (- 1074) / 2" by (subst power_int_diff) simp_all
  finally have "a \<le> 2 powi (- 1074) / 2" using assms(2) by simp
  then have h: "a / quantum a \<le> 1/2" unfolding q
    using zero_less_power_int[of "2::real" "- 1074"] by (simp add: field_simps del: power_int_numeral power_int_minus)
  have "0 \<le> a / quantum a" using assms(1) quantum_pos[of a] by simp
  then have "half_even (a / quantum a) = 0" using h by (rule half_even_small)
  then show ?thesis by (simp add: round_mag_def)
qed

lemma rnd_tiny: "\<bar>x\<bar> \<le> 2 powi (- 1075) \<Longrightarrow> rnd x = Fin 0"
  using round_mag_tiny[of "\<bar>x\<bar>"] overflow_limit_pos by (simp add: rnd_def)


lemma betweenE: "between d i j \<Longrightarrow> (\<And>y. d = Fin y \<Longrightarrow> 2 powi i \<le> y \<Longrightarrow> y \<le> 2 powi j \<Longrightarrow> P) \<Longrightarrow> P"
  by (cases d) auto

lemma between_rnd:
  "2 powi i \<le> x \<Longrightarrow> x \<le> 2 powi j \<Longrightarrow> - 1022 \<le> i \<Longrightarrow> j \<le> 1023 \<Longrightarrow> between (rnd x) i j"
  using rnd_between[of i x j] by auto

lemma between_weaken: "between d i j \<Longrightarrow> i' \<le> i \<Longrightarrow> j \<le> j' \<Longrightarrow> between d i' j'"
  using powi2_mono[of i' i] powi2_mono[of j j'] by (cases d) auto

lemma between_pos: "between d i j \<Longrightarrow> py_gt d (Fin 0) \<and> isfinite d"
proof (erule betweenE)
  fix y assume "d = Fin y" "2 powi i \<le> y"
  then show ?thesis using powi2_le_pos[of i y] by (simp add: py_gt_def)
qed

lemma between_mul:
  assumes "between a i j" "between b k l" "- 1022 \<le> i + k" "j + l \<le> 1023"
  shows "between (py_mul a b) (i + k) (j + l)"
proof -
  from assms(1) obtain x where a: "a = Fin x" "2 powi i \<le> x" "x \<le> 2 powi j" by (rule betweenE)
  from assms(2) obtain y where b: "b = Fin y" "2 powi k \<le> y" "y \<le> 2 powi l" by (rule betweenE)
  have x0: "0 \<le> x" using powi2_le_pos[OF a(2)] by simp
  have "2 powi i * 2 powi k \<le> x * y" using a(2) b(2) x0 by (intro mult_mono) simp_all
  then have lo: "2 powi (i + k) \<le> x * y" by (simp add: power_int_add)
  have y0: "0 \<le> y" using powi2_le_pos[OF b(2)] by simp
  have "x * y \<le> 2 powi j * 2 powi l" using a(3) b(3) x0 y0 by (intro mult_mono) simp_all
  then have hi: "x * y \<le> 2 powi (j + l)" by (simp add: power_int_add)
  show ?thesis unfolding a b py_mul.simps using lo hi assms(3,4) by (rule between_rnd)
qed

lemma between_div:
  assumes "between a i j" "between b k l" "- 1022 \<le> i - l" "j - k \<le> 1023"
  shows "\<exists>q. py_truediv a b = Inr q \<and> between q (i - l) (j - k)"
proof -
  from assms(1) obtain x where a: "a = Fin x" "2 powi i \<le> x" "x \<le> 2 powi j" by (rule betweenE)
  from assms(2) obtain y where b: "b = Fin y" "2 powi k \<le> y" "y \<le> 2 powi l" by (rule betweenE)
  have y0: "0 < y" using b(2) by (rule powi2_le_pos)
  have x0: "0 \<le> x" using powi2_le_pos[OF a(2)] by simp
  have "2 powi i / 2 powi l \<le> x / y" using a(2) b(3) y0 x0 by (intro frac_le) simp_all
  then have lo: "2 powi (i - l) \<le> x / y" by (simp add: power_int_diff)
  have "x / y \<le> 2 powi j / 2 powi k" using a(3) b(2) x0 by (intro frac_le) simp_all
  then have hi: "x / y \<le> 2 powi (j - k)" by (simp add: power_int_diff)
  have "between (rnd (x / y)) (i - l) (j - k)" using lo hi assms(3,4) by (rule between_rnd)
  then show ?thesis using y0 by (simp add: a b py_truediv_def)
qed

lemma between_add:
  assumes "between a i j" "between b k l" "- 1022 \<le> max i k" "max j l + 1 \<le> 1023"
  shows "between (py_add a b) (max i k) (max j l + 1)"
proof -
  from assms(1) obtain x where a: "a = Fin x" "2 powi i \<le> x" "x \<le> 2 powi j" by (rule betweenE)
  from assms(2) obtain y where b: "b = Fin y" "2 powi k \<le> y" "y \<le> 2 powi l" by (rule betweenE)
  have y0: "0 < y" using b(2) by (rule powi2_le_pos)
  have x0: "0 < x" using a(2) by (rule powi2_le_pos)
  have "2 powi (max i k) \<le> max x y"
    using a(2) b(2) by (cases "i \<le> k") (auto simp: max_def)
  then have lo: "2 powi (max i k) \<le> x + y" using x0 y0 by (simp add: max_def split: if_splits)
  have "x \<le> 2 powi (max j l)" "y \<le> 2 powi (max j l)"
    using a(3) b(3) powi2_mono[of j "max j l"] powi2_mono[of l "max j l"] by simp_all
  then have "x + y \<le> 2 * 2 powi (max j l)" by simp
  then have hi: "x + y \<le> 2 powi (max j l + 1)" by (simp add: power_int_add)
  show ?thesis unfolding a b py_add.simps using lo hi assms(3,4) by (rule between_rnd)
qed

lemma rnd_dyadic:
  assumes "2 powi k \<le> x" "x < 2 powi (k + 1)" "- 1022 \<le> k" "k \<le> 1023"
    and "x / 2 powi (k - 52) = of_int m"
  shows "rnd x = Fin x"
proof -
  have x0: "0 \<le> x" using powi2_le_pos[OF assms(1)] by simp
  have "round_mag x = of_int m * 2 powi (k - 52)"
    unfolding round_mag_normal[OF assms(1-4)] assms(5) by (simp only: half_even_int)
  also have "\<dots> = x" unfolding assms(5)[symmetric] by simp
  finally have r: "round_mag x = x" .
  have "k + 1 \<le> 1024" using assms(4) by simp
  then have "(2::real) powi (k + 1) \<le> overflow_limit" unfolding overflow_limit_def by (rule powi2_mono)
  with assms(2) have "x < overflow_limit" by simp
  then show ?thesis using rnd_pos_unfold[OF x0] r by simp
qed

lemma rnd_1: "rnd 1 = Fin 1" by (rule rnd_dyadic[where k = 0 and m = "2 ^ 52"]) simp_all
lemma rnd_2: "rnd 2 = Fin 2" by (rule rnd_dyadic[where k = 1 and m = "2 ^ 52"]) simp_all
lemma rnd_3: "rnd 3 = Fin 3" by (rule rnd_dyadic[where k = 1 and m = "3 * 2 ^ 51"]) simp_all
lemma rnd_9_2: "rnd (9/2) = Fin (9/2)" by (rule rnd_dyadic[where k = 2 and m = "9 * 2 ^ 49"]) simp_all

lemma rnd_eval:
  assumes "2 powi k \<le> x" "x < 2 powi (k + 1)" "- 1022 \<le> k" "k \<le> 1022"
    and "half_even (x / 2 powi (k - 52)) = m"
  shows "rnd x = Fin (of_int m * 2 powi (k - 52))"
proof -
  have x0: "0 \<le> x" using powi2_le_pos[OF assms(1)] by simp
  have k3: "k \<le> 1023" using assms(4) by simp
  have r: "round_mag x = of_int m * 2 powi (k - 52)"
    unfolding round_mag_normal[OF assms(1-3) k3] assms(5) ..
  have "k + 1 \<le> 1023" using assms(4) by simp
  then have "round_mag x < overflow_limit"
    using round_mag_bounds(2)[OF assms(1-3) k3] below_overflow[of "k + 1"] by simp
  then show ?thesis using rnd_pos_unfold[OF x0] r by simp
qed

section \<open>The simulation-backed evaluator\<close>

lemma float_lit_2: "float_lit 2 = Fin 2"
  by (simp add: float_lit_def rnd_2)

lemma halve: "py_truediv x (float_lit 2) = Inr (ieee_div x (Fin 2))"
  by (simp add: py_truediv_def float_lit_2)




lemma run_completed:
  assumes "cir_exists w = Inr True"
    and "edit_netlist w (Wn_str w Wn_um) (Wp_str w Wp_um) (L_str w L_um) = Inr ()"
    and "run_and_wait w = Inr ()"
    and "\<not> 0 < failSim w" and "completed_tasks w \<noteq> []"
    and "last (completed_tasks w) = Some log_file"
    and "log_exists w = Inr True"
    and "extract_measures w = Inr (m_phl, m_plh)"
    and "py_float (if m_phl = PyNone then PyFloat (float_lit (1 / 10 ^ 6)) else m_phl) = Inr a"
    and "py_float (if m_plh = PyNone then PyFloat (float_lit (1 / 10 ^ 6)) else m_plh) = Inr b"
  shows "run_simulation_and_extract_delay True w Wn_um Wp_um L_um =
           Inr \<lparr>success = True,
                delay_ns = py_mul (ieee_div (py_add a b) (Fin 2)) (float_lit (10 ^ 9)),
                tphl = py_mul a (float_lit (10 ^ 9)), tplh = py_mul b (float_lit (10 ^ 9))\<rparr>"
  using assms
  by (simp add: run_simulation_and_extract_delay_def try_body_def bind_exn_def halve Let_def)




text \<open>
  C7. When the simulation completes and the extraction yields \<^verbatim>\<open>tplh\<close> but no \<^verbatim>\<open>tphl\<close>, the
  call returns a success outcome: \<^verbatim>\<open>tphl\<close> is the sentinel \<^verbatim>\<open>1e-6\<close>, and the delay is the average
  of the sentinel and \<^verbatim>\<open>tplh\<close>, in nanoseconds.
\<close>

theorem C7_missing_tphl:
  assumes "cir_exists w = Inr True"
    and "edit_netlist w (Wn_str w Wn_um) (Wp_str w Wp_um) (L_str w L_um) = Inr ()"
    and "run_and_wait w = Inr ()"
    and "\<not> 0 < failSim w" and "completed_tasks w \<noteq> []"
    and "last (completed_tasks w) = Some log_file"
    and "log_exists w = Inr True"
    and "extract_measures w = Inr (PyNone, PyFloat v)"
  shows "run_simulation_and_extract_delay True w Wn_um Wp_um L_um =
           Inr \<lparr>success = True,
                delay_ns = py_mul (ieee_div (py_add (float_lit (1 / 10 ^ 6)) v) (Fin 2))
                             (float_lit (10 ^ 9)),
                tphl = py_mul (float_lit (1 / 10 ^ 6)) (float_lit (10 ^ 9)),
                tplh = py_mul v (float_lit (10 ^ 9))\<rparr>"
  by (rule run_completed[OF assms]) simp_all

theorem C7_missing_tphl_witness:
  "extract_measures env_only_tplh = Inr (PyNone, PyFloat (float_lit (1 / 10 ^ 10)))
   \<and> run_simulation_and_extract_delay True env_only_tplh (Fin 2) (Fin 6) L_val =
       Inr \<lparr>success = True,
            delay_ns = py_mul (ieee_div (py_add (float_lit (1 / 10 ^ 6))
                         (float_lit (1 / 10 ^ 10))) (Fin 2)) (float_lit (10 ^ 9)),
            tphl = py_mul (float_lit (1 / 10 ^ 6)) (float_lit (10 ^ 9)),
            tplh = py_mul (float_lit (1 / 10 ^ 10)) (float_lit (10 ^ 9))\<rparr>"
proof -
  have x: "extract_measures env_only_tplh = Inr (PyNone, PyFloat (float_lit (1 / 10 ^ 10)))"
    by (simp add: extract_measures_def regex_fallback_def env_only_tplh_def env_ok_def
        bind_exn_def)
  show ?thesis
    using C7_missing_tphl[of env_only_tplh "Fin 2" "Fin 6" L_val "''inverter_cmos.log''"
        "float_lit (1 / 10 ^ 10)", OF _ _ _ _ _ _ _ x] x
    by (simp add: env_only_tplh_def env_ok_def)
qed

section \<open>The grid search\<close>

lemma float_lit_1: "float_lit 1 = Fin 1"
  by (simp add: float_lit_def rnd_1)

lemma float_lit_3: "float_lit 3 = Fin 3"
  by (simp add: float_lit_def rnd_3)

lemma rnd_6: "rnd 6 = Fin 6"
  by (rule rnd_dyadic[where k = 2 and m = "3 * 2 ^ 51"]) simp_all

lemma rnd_9: "rnd 9 = Fin 9"
  by (rule rnd_dyadic[where k = 3 and m = "9 * 2 ^ 49"]) simp_all

lemma rnd_3_2: "rnd (3 / 2) = Fin (3 / 2)"
  by (rule rnd_dyadic[where k = 0 and m = "3 * 2 ^ 51"]) simp_all

lemma Wn_values_eq: "Wn_values = [Fin 1, Fin 2, Fin 3]"
  by (simp add: Wn_values_def float_lit_def rnd_1 rnd_2 rnd_3)

lemma Wp_values_eq: "Wp_values = [Fin 3, Fin 6, Fin 9]"
  by (simp add: Wp_values_def float_lit_def rnd_3 rnd_6 rnd_9)

lemma lit_12_10: "float_lit (6 / 5) = Fin (5404319552844595 / 2 ^ 52)"
proof -
  have "rnd (6 / 5) = Fin (of_int 5404319552844595 * 2 powi (0 - 52))"
    by (rule rnd_eval) (simp_all add: half_even_def)
  then show ?thesis by (simp add: float_lit_def)
qed

lemma lit_45_10: "float_lit (9 / 2) = Fin (9 / 2)"
  using rnd_9_2 by (simp add: float_lit_def)

lemma ratios:
  "py_truediv (Fin 3) (Fin 1) = Inr (Fin 3)" "py_truediv (Fin 6) (Fin 1) = Inr (Fin 6)"
  "py_truediv (Fin 9) (Fin 1) = Inr (Fin 9)" "py_truediv (Fin 3) (Fin 2) = Inr (Fin (3 / 2))"
  "py_truediv (Fin 6) (Fin 2) = Inr (Fin 3)" "py_truediv (Fin 9) (Fin 2) = Inr (Fin (9 / 2))"
  "py_truediv (Fin 3) (Fin 3) = Inr (Fin 1)" "py_truediv (Fin 6) (Fin 3) = Inr (Fin 2)"
  "py_truediv (Fin 9) (Fin 3) = Inr (Fin 3)"
  by (simp_all add: py_truediv_def rnd_1 rnd_2 rnd_3 rnd_6 rnd_9 rnd_3_2 rnd_9_2)

lemma kept_grid:
  "kept (Fin 1) (Fin 3)" "\<not> kept (Fin 1) (Fin 6)" "\<not> kept (Fin 1) (Fin 9)"
  "kept (Fin 2) (Fin 3)" "kept (Fin 2) (Fin 6)" "kept (Fin 2) (Fin 9)"
  "\<not> kept (Fin 3) (Fin 3)" "kept (Fin 3) (Fin 6)" "kept (Fin 3) (Fin 9)"
  by (simp_all add: kept_def ratios lit_12_10 lit_45_10 py_gt_def)

lemma window_grid:
  "ratio_in_window (Fin 1) (Fin 3)" "\<not> ratio_in_window (Fin 1) (Fin 6)"
  "\<not> ratio_in_window (Fin 1) (Fin 9)" "ratio_in_window (Fin 2) (Fin 3)"
  "ratio_in_window (Fin 2) (Fin 6)" "ratio_in_window (Fin 2) (Fin 9)"
  "\<not> ratio_in_window (Fin 3) (Fin 3)" "ratio_in_window (Fin 3) (Fin 6)"
  "ratio_in_window (Fin 3) (Fin 9)"
  by (simp_all add: ratio_in_window_def ratios lit_12_10 lit_45_10)

lemma grid_body_skip: "\<not> kept Wn Wp \<Longrightarrow> grid_body sim L Wn Wp st = Inr st' \<Longrightarrow> st' = st"
  by (auto simp: grid_body_def kept_def bind_exn_def split: sum.splits if_splits)

lemma grid_body_kept:
  assumes "kept Wn Wp" "grid_body sim L Wn Wp st = Inr st'"
  obtains r where "sim Wn Wp L = Inr r"
    and "st' = (if success r \<and> py_lt (delay_ns r) (best_delay st)
                then st\<lparr>evaluated := evaluated st @ [(Wn, Wp)], best_delay := delay_ns r,
                        best_params := Some (Wn, Wp, L)\<rparr>
                else st\<lparr>evaluated := evaluated st @ [(Wn, Wp)]\<rparr>)"
  using assms
  by (auto simp: grid_body_def kept_def bind_exn_def Let_def split: sum.splits if_splits)

lemma grid_body_evaluated:
  "grid_body sim L Wn Wp st = Inr st' \<Longrightarrow>
     evaluated st' = evaluated st @ (if kept Wn Wp then [(Wn, Wp)] else [])"
  by (cases "kept Wn Wp") (auto dest: grid_body_skip elim!: grid_body_kept split: if_splits)

lemma inner_loop_evaluated:
  "inner_loop sim L Wn Wps st = Inr st' \<Longrightarrow>
     evaluated st' = evaluated st @ map (Pair Wn) (filter (kept Wn) Wps)"
proof (induction Wps arbitrary: st)
  case Nil
  then show ?case by simp
next
  case (Cons Wp Wps)
  then obtain s1 where 1: "grid_body sim L Wn Wp st = Inr s1"
    and 2: "inner_loop sim L Wn Wps s1 = Inr st'"
    by (auto simp: bind_exn_def split: sum.splits)
  show ?case using Cons.IH[OF 2] grid_body_evaluated[OF 1] by simp
qed

lemma outer_loop_evaluated:
  "outer_loop sim L Wns Wps st = Inr st' \<Longrightarrow>
     evaluated st' = evaluated st @ concat (map (\<lambda>Wn. map (Pair Wn) (filter (kept Wn) Wps)) Wns)"
proof (induction Wns arbitrary: st)
  case Nil
  then show ?case by simp
next
  case (Cons Wn Wns)
  then obtain s1 where 1: "inner_loop sim L Wn Wps st = Inr s1"
    and 2: "outer_loop sim L Wns Wps s1 = Inr st'"
    by (auto simp: bind_exn_def split: sum.splits)
  show ?case using Cons.IH[OF 2] inner_loop_evaluated[OF 1] by simp
qed

lemma grid_search_evaluated:
  assumes "grid_search sim = Inr st"
  shows "evaluated st = [(Fin 1, Fin 3), (Fin 2, Fin 3), (Fin 2, Fin 6), (Fin 2, Fin 9),
                         (Fin 3, Fin 6), (Fin 3, Fin 9)]"
  using outer_loop_evaluated[OF assms[unfolded grid_search_def]]
  by (simp add: Wn_values_eq Wp_values_eq kept_grid)

lemma window_filter:
  "filter (\<lambda>(Wn, Wp). ratio_in_window Wn Wp) (List.product Wn_values Wp_values) =
     [(Fin 1, Fin 3), (Fin 2, Fin 3), (Fin 2, Fin 6), (Fin 2, Fin 9), (Fin 3, Fin 6), (Fin 3, Fin 9)]"
  by (simp add: Wn_values_eq Wp_values_eq window_grid)

text \<open>What the loops keep true of the incumbent.\<close>

lemma py_lt_irrefl: "\<not> py_lt x x"
  by (cases x) simp_all

lemma py_lt_below: "\<not> py_lt x b \<Longrightarrow> py_lt d b \<Longrightarrow> \<not> py_lt x d"
  by (cases x; cases b; cases d) simp_all

lemma py_lt_trans: "py_lt a b \<Longrightarrow> py_lt b c \<Longrightarrow> py_lt a c"
  by (cases a; cases b; cases c) simp_all

lemma grid_body_attained:
  assumes "grid_body sim L Wn Wp st = Inr st'"
    and "\<And>p. best_params st = Some p \<Longrightarrow>
           \<exists>a b r. p = (a, b, L) \<and> (a, b) \<in> set (evaluated st) \<and> sim a b L = Inr r \<and> success r
             \<and> delay_ns r = best_delay st"
    and "best_params st' = Some p"
  shows "\<exists>a b r. p = (a, b, L) \<and> (a, b) \<in> set (evaluated st') \<and> sim a b L = Inr r \<and> success r
           \<and> delay_ns r = best_delay st'"
proof (cases "kept Wn Wp")
  case False
  have "st' = st" by (rule grid_body_skip[OF False assms(1)])
  then show ?thesis using assms(2)[of p] assms(3) by simp
next
  case True
  from True assms(1) obtain r where r: "sim Wn Wp L = Inr r"
    and s: "st' = (if success r \<and> py_lt (delay_ns r) (best_delay st)
                then st\<lparr>evaluated := evaluated st @ [(Wn, Wp)], best_delay := delay_ns r,
                        best_params := Some (Wn, Wp, L)\<rparr>
                else st\<lparr>evaluated := evaluated st @ [(Wn, Wp)]\<rparr>)"
    by (rule grid_body_kept)
  show ?thesis
  proof (cases "success r \<and> py_lt (delay_ns r) (best_delay st)")
    case up: True
    have s': "st' = st\<lparr>evaluated := evaluated st @ [(Wn, Wp)], best_delay := delay_ns r,
                        best_params := Some (Wn, Wp, L)\<rparr>"
      using s unfolding if_P[OF up] .
    have p: "p = (Wn, Wp, L)" using assms(3) unfolding s' by simp
    have e: "(Wn, Wp) \<in> set (evaluated st')" unfolding s' by simp
    have d: "delay_ns r = best_delay st'" unfolding s' by simp
    from p e r up d show ?thesis by blast
  next
    case no: False
    have s': "st' = st\<lparr>evaluated := evaluated st @ [(Wn, Wp)]\<rparr>"
      using s unfolding if_not_P[OF no] .
    have "best_params st = Some p" using assms(3) unfolding s' by simp
    from assms(2)[OF this] obtain a b r0 where o: "p = (a, b, L)" "(a, b) \<in> set (evaluated st)"
      "sim a b L = Inr r0" "success r0" "delay_ns r0 = best_delay st" by blast
    have e: "(a, b) \<in> set (evaluated st')" using o(2) unfolding s' by simp
    have d: "delay_ns r0 = best_delay st'" using o(5) unfolding s' by simp
    from o(1) e o(3,4) d show ?thesis by blast
  qed
qed

lemma grid_body_minimal:
  assumes "grid_body sim L Wn Wp st = Inr st'"
    and "\<And>a b r. (a, b) \<in> set (evaluated st) \<Longrightarrow> sim a b L = Inr r \<Longrightarrow> success r
           \<Longrightarrow> \<not> py_lt (delay_ns r) (best_delay st)"
    and "(a, b) \<in> set (evaluated st')" "sim a b L = Inr r" "success r"
  shows "\<not> py_lt (delay_ns r) (best_delay st')"
proof (cases "kept Wn Wp")
  case False
  have e: "st' = st" by (rule grid_body_skip[OF False assms(1)])
  show ?thesis using assms(2)[of a b r] assms(3,4,5) unfolding e by blast
next
  case True
  from True assms(1) obtain r0 where r0: "sim Wn Wp L = Inr r0"
    and s: "st' = (if success r0 \<and> py_lt (delay_ns r0) (best_delay st)
                then st\<lparr>evaluated := evaluated st @ [(Wn, Wp)], best_delay := delay_ns r0,
                        best_params := Some (Wn, Wp, L)\<rparr>
                else st\<lparr>evaluated := evaluated st @ [(Wn, Wp)]\<rparr>)"
    by (rule grid_body_kept)
  have old: "\<not> py_lt (delay_ns r) (best_delay st)" if "(a, b) \<noteq> (Wn, Wp)"
  proof -
    have "set (evaluated st') = insert (Wn, Wp) (set (evaluated st))"
      by (subst s) simp
    with that assms(3) have "(a, b) \<in> set (evaluated st)" by blast
    from assms(2)[OF this assms(4,5)] show ?thesis .
  qed
  have same: "r = r0" if "(a, b) = (Wn, Wp)"
    using that r0 assms(4) by simp
  show ?thesis
  proof (cases "success r0 \<and> py_lt (delay_ns r0) (best_delay st)")
    case up: True
    have s': "st' = st\<lparr>evaluated := evaluated st @ [(Wn, Wp)], best_delay := delay_ns r0,
                        best_params := Some (Wn, Wp, L)\<rparr>"
      using s unfolding if_P[OF up] .
    have b': "best_delay st' = delay_ns r0" unfolding s' by simp
    show ?thesis
    proof (cases "(a, b) = (Wn, Wp)")
      case True
      show ?thesis unfolding b' same[OF True] by (rule py_lt_irrefl)
    next
      case False
      from up have "py_lt (delay_ns r0) (best_delay st)" by simp
      with old[OF False] show ?thesis unfolding b' by (rule py_lt_below)
    qed
  next
    case no: False
    have s': "st' = st\<lparr>evaluated := evaluated st @ [(Wn, Wp)]\<rparr>"
      using s unfolding if_not_P[OF no] .
    have b': "best_delay st' = best_delay st" unfolding s' by simp
    show ?thesis
    proof (cases "(a, b) = (Wn, Wp)")
      case True
      show ?thesis using no assms(5) unfolding b' same[OF True] by blast
    next
      case False
      from old[OF False] show ?thesis unfolding b' .
    qed
  qed
qed

lemma inner_loop_incumbent:
  assumes "inner_loop sim L Wn Wps st = Inr st'"
    and "\<forall>p. best_params st = Some p \<longrightarrow>
           (\<exists>a b r. p = (a, b, L) \<and> (a, b) \<in> set (evaluated st) \<and> sim a b L = Inr r \<and> success r
             \<and> delay_ns r = best_delay st)"
    and "\<forall>a b r. (a, b) \<in> set (evaluated st) \<longrightarrow> sim a b L = Inr r \<longrightarrow> success r
           \<longrightarrow> \<not> py_lt (delay_ns r) (best_delay st)"
  shows "(\<forall>p. best_params st' = Some p \<longrightarrow>
           (\<exists>a b r. p = (a, b, L) \<and> (a, b) \<in> set (evaluated st') \<and> sim a b L = Inr r \<and> success r
             \<and> delay_ns r = best_delay st'))
         \<and> (\<forall>a b r. (a, b) \<in> set (evaluated st') \<longrightarrow> sim a b L = Inr r \<longrightarrow> success r
           \<longrightarrow> \<not> py_lt (delay_ns r) (best_delay st'))"
  using assms
proof (induction Wps arbitrary: st)
  case Nil
  from Nil(1) have e: "st' = st" by simp
  show ?case unfolding e using Nil(2,3) by blast
next
  case (Cons Wp Wps)
  from Cons.prems(1) obtain s1 where 1: "grid_body sim L Wn Wp st = Inr s1"
    and 2: "inner_loop sim L Wn Wps s1 = Inr st'"
    by (auto simp: bind_exn_def split: sum.splits)
  have a: "\<forall>p. best_params s1 = Some p \<longrightarrow>
           (\<exists>a b r. p = (a, b, L) \<and> (a, b) \<in> set (evaluated s1) \<and> sim a b L = Inr r \<and> success r
             \<and> delay_ns r = best_delay s1)"
    using grid_body_attained[OF 1] Cons.prems(2) by blast
  have b: "\<forall>a b r. (a, b) \<in> set (evaluated s1) \<longrightarrow> sim a b L = Inr r \<longrightarrow> success r
           \<longrightarrow> \<not> py_lt (delay_ns r) (best_delay s1)"
    using grid_body_minimal[OF 1] Cons.prems(3) by blast
  show ?case by (rule Cons.IH[OF 2 a b])
qed

lemma outer_loop_incumbent:
  assumes "outer_loop sim L Wns Wps st = Inr st'"
    and "\<forall>p. best_params st = Some p \<longrightarrow>
           (\<exists>a b r. p = (a, b, L) \<and> (a, b) \<in> set (evaluated st) \<and> sim a b L = Inr r \<and> success r
             \<and> delay_ns r = best_delay st)"
    and "\<forall>a b r. (a, b) \<in> set (evaluated st) \<longrightarrow> sim a b L = Inr r \<longrightarrow> success r
           \<longrightarrow> \<not> py_lt (delay_ns r) (best_delay st)"
  shows "(\<forall>p. best_params st' = Some p \<longrightarrow>
           (\<exists>a b r. p = (a, b, L) \<and> (a, b) \<in> set (evaluated st') \<and> sim a b L = Inr r \<and> success r
             \<and> delay_ns r = best_delay st'))
         \<and> (\<forall>a b r. (a, b) \<in> set (evaluated st') \<longrightarrow> sim a b L = Inr r \<longrightarrow> success r
           \<longrightarrow> \<not> py_lt (delay_ns r) (best_delay st'))"
  using assms
proof (induction Wns arbitrary: st)
  case Nil
  from Nil(1) have e: "st' = st" by simp
  show ?case unfolding e using Nil(2,3) by blast
next
  case (Cons Wn Wns)
  from Cons.prems(1) obtain s1 where 1: "inner_loop sim L Wn Wps st = Inr s1"
    and 2: "outer_loop sim L Wns Wps s1 = Inr st'"
    by (auto simp: bind_exn_def split: sum.splits)
  note i = inner_loop_incumbent[OF 1 Cons.prems(2,3)]
  show ?case by (rule Cons.IH[OF 2 conjunct1[OF i] conjunct2[OF i]])
qed

lemma grid_search_incumbent:
  assumes "grid_search sim = Inr st"
  shows "(\<forall>p. best_params st = Some p \<longrightarrow>
           (\<exists>a b r. p = (a, b, L_val) \<and> (a, b) \<in> set (evaluated st) \<and> sim a b L_val = Inr r
             \<and> success r \<and> delay_ns r = best_delay st))
         \<and> (\<forall>a b r. (a, b) \<in> set (evaluated st) \<longrightarrow> sim a b L_val = Inr r \<longrightarrow> success r
           \<longrightarrow> \<not> py_lt (delay_ns r) (best_delay st))"
  by (rule outer_loop_incumbent[OF assms[unfolded grid_search_def]]) simp_all

lemma grid_body_returns:
  assumes "Wn \<noteq> Fin 0" and "kept Wn Wp \<Longrightarrow> \<exists>r. sim Wn Wp L = Inr r"
  shows "\<exists>st'. grid_body sim L Wn Wp st = Inr st'"
proof (cases "kept Wn Wp")
  case True
  from assms(2)[OF True] obtain r where "sim Wn Wp L = Inr r" ..
  then show ?thesis using assms(1)
    by (simp add: grid_body_def py_truediv_def bind_exn_def Let_def)
next
  case False
  then show ?thesis using assms(1)
    by (simp add: grid_body_def kept_def py_truediv_def bind_exn_def)
qed

lemma inner_loop_returns:
  assumes "Wn \<noteq> Fin 0" and "\<forall>Wp \<in> set Wps. kept Wn Wp \<longrightarrow> (\<exists>r. sim Wn Wp L = Inr r)"
  shows "\<exists>st'. inner_loop sim L Wn Wps st = Inr st'"
  using assms(2)
proof (induction Wps arbitrary: st)
  case Nil
  then show ?case by simp
next
  case (Cons Wp Wps)
  have "kept Wn Wp \<Longrightarrow> \<exists>r. sim Wn Wp L = Inr r" using Cons.prems by simp
  with assms(1) obtain s1 where 1: "grid_body sim L Wn Wp st = Inr s1"
    using grid_body_returns by blast
  have "\<forall>Wp \<in> set Wps. kept Wn Wp \<longrightarrow> (\<exists>r. sim Wn Wp L = Inr r)" using Cons.prems by simp
  from Cons.IH[OF this] obtain s2 where "inner_loop sim L Wn Wps s1 = Inr s2" by blast
  with 1 show ?case by (simp add: bind_exn_def)
qed

lemma outer_loop_returns:
  assumes "\<forall>Wn \<in> set Wns. Wn \<noteq> Fin 0
             \<and> (\<forall>Wp \<in> set Wps. kept Wn Wp \<longrightarrow> (\<exists>r. sim Wn Wp L = Inr r))"
  shows "\<exists>st'. outer_loop sim L Wns Wps st = Inr st'"
  using assms
proof (induction Wns arbitrary: st)
  case Nil
  then show ?case by simp
next
  case (Cons Wn Wns)
  have "Wn \<noteq> Fin 0" "\<forall>Wp \<in> set Wps. kept Wn Wp \<longrightarrow> (\<exists>r. sim Wn Wp L = Inr r)"
    using Cons.prems by simp_all
  then obtain s1 where 1: "inner_loop sim L Wn Wps st = Inr s1"
    using inner_loop_returns by blast
  have "\<forall>Wn \<in> set Wns. Wn \<noteq> Fin 0
          \<and> (\<forall>Wp \<in> set Wps. kept Wn Wp \<longrightarrow> (\<exists>r. sim Wn Wp L = Inr r))"
    using Cons.prems by simp
  from Cons.IH[OF this] obtain s2 where "outer_loop sim L Wns Wps s1 = Inr s2" by blast
  with 1 show ?case by (simp add: bind_exn_def)
qed

lemma grid_search_returns:
  assumes "\<forall>(a, b) \<in> set [(Fin 1, Fin 3), (Fin 2, Fin 3), (Fin 2, Fin 6), (Fin 2, Fin 9),
                           (Fin 3, Fin 6), (Fin 3, Fin 9)]. \<exists>r. sim a b L_val = Inr r"
  shows "\<exists>st. grid_search sim = Inr st"
  unfolding grid_search_def
  by (rule outer_loop_returns) (use assms in \<open>simp add: Wn_values_eq Wp_values_eq kept_grid\<close>)

lemma grid_body_update:
  assumes "grid_body sim L Wn Wp s = Inr s'"
    and "best_params s' \<noteq> best_params s \<or> best_delay s' \<noteq> best_delay s"
  shows "\<exists>r. sim Wn Wp L = Inr r \<and> success r \<and> py_lt (delay_ns r) (best_delay s)
           \<and> best_delay s' = delay_ns r \<and> best_params s' = Some (Wn, Wp, L)"
proof (cases "kept Wn Wp")
  case False
  have "s' = s" by (rule grid_body_skip[OF False assms(1)])
  with assms(2) show ?thesis by simp
next
  case True
  from True assms(1) obtain r where r: "sim Wn Wp L = Inr r"
    and s: "s' = (if success r \<and> py_lt (delay_ns r) (best_delay s)
                then s\<lparr>evaluated := evaluated s @ [(Wn, Wp)], best_delay := delay_ns r,
                        best_params := Some (Wn, Wp, L)\<rparr>
                else s\<lparr>evaluated := evaluated s @ [(Wn, Wp)]\<rparr>)"
    by (rule grid_body_kept)
  show ?thesis
  proof (cases "success r \<and> py_lt (delay_ns r) (best_delay s)")
    case up: True
    have s': "s' = s\<lparr>evaluated := evaluated s @ [(Wn, Wp)], best_delay := delay_ns r,
                        best_params := Some (Wn, Wp, L)\<rparr>"
      using s unfolding if_P[OF up] .
    have "best_delay s' = delay_ns r" "best_params s' = Some (Wn, Wp, L)" unfolding s' by simp_all
    with r up show ?thesis by blast
  next
    case no: False
    have s': "s' = s\<lparr>evaluated := evaluated s @ [(Wn, Wp)]\<rparr>"
      using s unfolding if_not_P[OF no] .
    have "best_params s' = best_params s" "best_delay s' = best_delay s" unfolding s' by simp_all
    with assms(2) show ?thesis by simp
  qed
qed

lemma lit_1e9: "float_lit 1000000000 = Fin 1000000000"
  unfolding float_lit_def by (rule rnd_dyadic[where k = 29 and m = "10 ^ 9 * 2 ^ 23"]) simp_all

lemma lit_1e6: "float_lit 1000000 = Fin 1000000"
  unfolding float_lit_def by (rule rnd_dyadic[where k = 19 and m = "10 ^ 6 * 2 ^ 33"]) simp_all

lemma grid_step_eval:
  "grid_body sim L Wn Wp st =
     (case py_truediv Wp Wn of
        Inl e \<Rightarrow> Inl e
      | Inr ratio \<Rightarrow>
         if py_lt ratio (float_lit (6 / 5)) \<or> py_lt (float_lit (9 / 2)) ratio then Inr st
         else (case sim Wn Wp L of
                 Inl e \<Rightarrow> Inl e
               | Inr result \<Rightarrow>
                  if success result \<and> py_lt (delay_ns result) (best_delay st)
                  then Inr (st\<lparr>evaluated := evaluated st @ [(Wn, Wp)],
                          best_delay := delay_ns result, best_params := Some (Wn, Wp, L)\<rparr>)
                  else Inr (st\<lparr>evaluated := evaluated st @ [(Wn, Wp)]\<rparr>)))"
  by (simp add: grid_body_def bind_exn_def Let_def py_gt_def split: sum.splits)

lemma sim_table_search:
  "grid_search sim_table =
     Inr \<lparr>best_delay = Fin (1 / 8), best_params = Some (Fin 2, Fin 9, L_val),
          evaluated = [(Fin 1, Fin 3), (Fin 2, Fin 3), (Fin 2, Fin 6), (Fin 2, Fin 9),
                       (Fin 3, Fin 6), (Fin 3, Fin 9)]\<rparr>"
  by (simp add: grid_search_def Wn_values_eq Wp_values_eq grid_step_eval ratios lit_12_10
      lit_45_10 lit_1e9 lit_1e6 sim_table_def measured_def FAILURE_def bind_exn_def)

lemma sim_all_fail_search:
  "grid_search sim_all_fail =
     Inr \<lparr>best_delay = Fin 1000000000, best_params = None,
          evaluated = [(Fin 1, Fin 3), (Fin 2, Fin 3), (Fin 2, Fin 6), (Fin 2, Fin 9),
                       (Fin 3, Fin 6), (Fin 3, Fin 9)]\<rparr>"
  by (simp add: grid_search_def Wn_values_eq Wp_values_eq grid_step_eval ratios lit_12_10
      lit_45_10 lit_1e9 lit_1e6 sim_all_fail_def FAILURE_def bind_exn_def)

lemma L_val_value: "L_val = Fin (6305039478318694 / 2 ^ 54)"
proof -
  have "rnd (35 / 100) = Fin (of_int 6305039478318694 * 2 powi (- 2 - 52))"
    by (rule rnd_eval) (simp_all add: half_even_def)
  then show ?thesis by (simp add: L_val_def float_lit_def)
qed

lemma tenth_range: "between (float_lit (1 / 10)) (- 4) (- 3)"
  unfolding float_lit_def by (rule between_rnd) simp_all

section \<open>Unit-suffix formatting\<close>

text \<open>
  C9 (as amended). The two widths are written in micrometres when they are at least 1 and in
  nanometres otherwise; the channel length is written in micrometres when it is at least 0.1
  and in nanometres otherwise. The three strings are values of total functions: the formatting
  raises nothing.
\<close>

theorem C9_unit_suffix:
  "last (Wn_str w Wn_um) = (if py_ge Wn_um (Fin 1) then CHR ''u'' else CHR ''n'')
   \<and> last (Wp_str w Wp_um) = (if py_ge Wp_um (Fin 1) then CHR ''u'' else CHR ''n'')
   \<and> last (L_str w L_um) = (if py_ge L_um (float_lit (1 / 10)) then CHR ''u'' else CHR ''n'')"
  by (simp add: Wn_str_def Wp_str_def L_str_def)

text \<open>The channel length of the grid search, 0.35, is below 1 and is written in micrometres.\<close>

theorem C9_length_counterexample:
  "\<not> py_ge L_val (Fin 1) \<and> L_str env_ok L_val = ''0.350u''"
proof -
  have t: "py_ge L_val (float_lit (1 / 10))"
    using tenth_range unfolding L_val_value by (cases "float_lit (1 / 10)") (auto simp: py_ge_def)
  have "format_fixed 3 L_val = ''0.350''"
    unfolding L_val_value by (simp add: half_even_def)
  then show ?thesis using t by (simp add: L_str_def env_ok_def) (simp add: L_val_value py_ge_def)
qed

section \<open>The outcome of a log without measures\<close>

lemma lit_1em6: "float_lit (1 / 1000000) = Fin (4722366482869645 / 2 ^ 72)"
proof -
  have "rnd (1 / 1000000) = Fin (of_int 4722366482869645 * 2 powi (- 20 - 52))"
    by (rule rnd_eval) (simp_all add: half_even_def)
  then show ?thesis by (simp add: float_lit_def)
qed

lemma lit_2em6: "float_lit (1 / 500000) = Fin (4722366482869645 / 2 ^ 71)"
proof -
  have "rnd (1 / 500000) = Fin (of_int 4722366482869645 * 2 powi (- 19 - 52))"
    by (rule rnd_eval) (simp_all add: half_even_def)
  then show ?thesis by (simp add: float_lit_def)
qed

lemma sentinel_sum: "rnd (4722366482869645 / 2 ^ 71) = Fin (4722366482869645 / 2 ^ 71)"
  by (rule rnd_dyadic[where k = "- 19" and m = 4722366482869645]) simp_all

lemma sentinel_half: "rnd (4722366482869645 / 2 ^ 72) = Fin (4722366482869645 / 2 ^ 72)"
  by (rule rnd_dyadic[where k = "- 20" and m = 4722366482869645]) simp_all

lemma slow_sum: "rnd (4722366482869645 / 2 ^ 70) = Fin (4722366482869645 / 2 ^ 70)"
  by (rule rnd_dyadic[where k = "- 18" and m = 4722366482869645]) simp_all

lemma sentinel_ns: "rnd (4722366482869645 / 2 ^ 72 * 1000000000) = Fin 1000"
proof -
  have "rnd (4722366482869645 / 2 ^ 72 * 1000000000)
          = Fin (of_int 8796093022208000 * 2 powi (9 - 52))"
    by (rule rnd_eval) (simp_all add: half_even_def)
  then show ?thesis by simp
qed

lemma slow_ns: "rnd (4722366482869645 / 2 ^ 71 * 1000000000) = Fin 2000"
proof -
  have "rnd (4722366482869645 / 2 ^ 71 * 1000000000)
          = Fin (of_int 8796093022208000 * 2 powi (10 - 52))"
    by (rule rnd_eval) (simp_all add: half_even_def)
  then show ?thesis by simp
qed

lemma sentinel_delay:
  "py_mul (ieee_div (py_add (float_lit (1 / 10 ^ 6)) (float_lit (1 / 10 ^ 6))) (Fin 2))
     (float_lit (10 ^ 9)) = Fin 1000"
  "py_mul (float_lit (1 / 10 ^ 6)) (float_lit (10 ^ 9)) = Fin 1000"
  using sentinel_sum sentinel_half sentinel_ns by (simp_all add: lit_1em6 lit_1e9)

lemma slow_delay:
  "py_mul (ieee_div (py_add (float_lit (2 / 10 ^ 6)) (float_lit (2 / 10 ^ 6))) (Fin 2))
     (float_lit (10 ^ 9)) = Fin 2000"
  "py_mul (float_lit (2 / 10 ^ 6)) (float_lit (10 ^ 9)) = Fin 2000"
  using slow_sum sentinel_sum slow_ns by (simp_all add: lit_2em6 lit_1e9)

lemma run_no_measures:
  assumes "cir_exists w = Inr True"
    and "edit_netlist w (Wn_str w Wn_um) (Wp_str w Wp_um) (L_str w L_um) = Inr ()"
    and "run_and_wait w = Inr ()"
    and "\<not> 0 < failSim w" and "completed_tasks w \<noteq> []"
    and "last (completed_tasks w) = Some log_file"
    and "log_exists w = Inr True"
    and "extract_measures w = Inr (PyNone, PyNone)"
  shows "run_simulation_and_extract_delay True w Wn_um Wp_um L_um =
           Inr \<lparr>success = True, delay_ns = Fin 1000, tphl = Fin 1000, tplh = Fin 1000\<rparr>"
proof -
  have "run_simulation_and_extract_delay True w Wn_um Wp_um L_um =
           Inr \<lparr>success = True,
                delay_ns = py_mul (ieee_div (py_add (float_lit (1 / 10 ^ 6))
                             (float_lit (1 / 10 ^ 6))) (Fin 2)) (float_lit (10 ^ 9)),
                tphl = py_mul (float_lit (1 / 10 ^ 6)) (float_lit (10 ^ 9)),
                tplh = py_mul (float_lit (1 / 10 ^ 6)) (float_lit (10 ^ 9))\<rparr>"
    by (rule run_completed[OF assms]) simp_all
  then show ?thesis by (simp only: sentinel_delay)
qed

lemma extract_no_measures: "extract_measures env_no_measures = Inr (PyNone, PyNone)"
  by (simp add: extract_measures_def regex_fallback_def env_no_measures_def env_ok_def
      bind_exn_def)

lemma run_env_no_measures:
  "run_simulation_and_extract_delay True env_no_measures Wn_um Wp_um L_um =
     Inr \<lparr>success = True, delay_ns = Fin 1000, tphl = Fin 1000, tplh = Fin 1000\<rparr>"
  by (rule run_no_measures[where log_file = "''inverter_cmos.log''", OF _ _ _ _ _ _ _ extract_no_measures])
    (simp_all add: env_no_measures_def env_ok_def)

lemma run_env_slow:
  "run_simulation_and_extract_delay True env_slow Wn_um Wp_um L_um =
     Inr \<lparr>success = True, delay_ns = Fin 2000, tphl = Fin 2000, tplh = Fin 2000\<rparr>"
proof -
  have x: "extract_measures env_slow
             = Inr (PyFloat (float_lit (2 / 10 ^ 6)), PyFloat (float_lit (2 / 10 ^ 6)))"
    by (simp add: extract_measures_def env_slow_def env_ok_def)
  have "run_simulation_and_extract_delay True env_slow Wn_um Wp_um L_um =
           Inr \<lparr>success = True,
                delay_ns = py_mul (ieee_div (py_add (float_lit (2 / 10 ^ 6))
                             (float_lit (2 / 10 ^ 6))) (Fin 2)) (float_lit (10 ^ 9)),
                tphl = py_mul (float_lit (2 / 10 ^ 6)) (float_lit (10 ^ 9)),
                tplh = py_mul (float_lit (2 / 10 ^ 6)) (float_lit (10 ^ 9))\<rparr>"
    by (rule run_completed[where log_file = "''inverter_cmos.log''", OF _ _ _ _ _ _ _ x])
      (simp_all add: env_slow_def env_ok_def)
  then show ?thesis by (simp only: slow_delay)
qed

lemma run_env_crash:
  "run_simulation_and_extract_delay True env_crash Wn_um Wp_um L_um = Inr FAILURE"
  by (simp add: run_simulation_and_extract_delay_def try_body_def env_crash_def env_ok_def
      bind_exn_def)

lemma sim_displace_search:
  "grid_search sim_displace =
     Inr \<lparr>best_delay = Fin 1000, best_params = Some (Fin 2, Fin 3, L_val),
          evaluated = [(Fin 1, Fin 3), (Fin 2, Fin 3), (Fin 2, Fin 6), (Fin 2, Fin 9),
                       (Fin 3, Fin 6), (Fin 3, Fin 9)]\<rparr>"
  by (simp add: grid_search_def Wn_values_eq Wp_values_eq grid_step_eval ratios lit_12_10
      lit_45_10 lit_1e9 lit_1e6 sim_displace_def run_env_slow run_env_no_measures run_env_crash
      FAILURE_def bind_exn_def)

lemma sentinel_step:
  assumes "kept Wn Wp"
    and "sim Wn Wp L =
           Inr \<lparr>success = True, delay_ns = Fin 1000, tphl = Fin 1000, tplh = Fin 1000\<rparr>"
    and "py_lt (Fin 1000) (best_delay st)"
  shows "grid_body sim L Wn Wp st =
           Inr (st\<lparr>evaluated := evaluated st @ [(Wn, Wp)], best_delay := Fin 1000,
                   best_params := Some (Wn, Wp, L)\<rparr>)"
  using assms
  by (auto simp: grid_body_def kept_def bind_exn_def Let_def split: sum.splits)

text \<open>
  C10. When the simulation completes and neither measure can be extracted, the call returns
  a success outcome whose three delays are 1000.0 ns (the two sentinels, averaged). That is
  below the failure penalty \<^verbatim>\<open>1e6\<close>. The grid search treats it as any success: it becomes the
  incumbent whenever the incumbent's delay is above 1000.0, and in the run \<open>sim_displace\<close> it
  replaces a real measurement of 2000.0 ns.
\<close>

theorem C10_all_sentinel_outcome:
  "(cir_exists w = Inr True
      \<and> edit_netlist w (Wn_str w Wn_um) (Wp_str w Wp_um) (L_str w L_um) = Inr ()
      \<and> run_and_wait w = Inr () \<and> \<not> 0 < failSim w \<and> completed_tasks w \<noteq> []
      \<and> last (completed_tasks w) = Some log_file \<and> log_exists w = Inr True
      \<and> extract_measures w = Inr (PyNone, PyNone)
     \<longrightarrow> run_simulation_and_extract_delay True w Wn_um Wp_um L_um =
           Inr \<lparr>success = True, delay_ns = Fin 1000, tphl = Fin 1000, tplh = Fin 1000\<rparr>)
   \<and> py_lt (Fin 1000) (delay_ns FAILURE)
   \<and> (kept Wn Wp
        \<and> sim Wn Wp L =
            Inr \<lparr>success = True, delay_ns = Fin 1000, tphl = Fin 1000, tplh = Fin 1000\<rparr>
        \<and> py_lt (Fin 1000) (best_delay st)
       \<longrightarrow> grid_body sim L Wn Wp st =
             Inr (st\<lparr>evaluated := evaluated st @ [(Wn, Wp)], best_delay := Fin 1000,
                     best_params := Some (Wn, Wp, L)\<rparr>))
   \<and> sim_displace (Fin 1) (Fin 3) L_val =
        Inr \<lparr>success = True, delay_ns = Fin 2000, tphl = Fin 2000, tplh = Fin 2000\<rparr>
   \<and> sim_displace (Fin 2) (Fin 3) L_val =
        Inr \<lparr>success = True, delay_ns = Fin 1000, tphl = Fin 1000, tplh = Fin 1000\<rparr>
   \<and> grid_search sim_displace =
        Inr \<lparr>best_delay = Fin 1000, best_params = Some (Fin 2, Fin 3, L_val),
             evaluated = [(Fin 1, Fin 3), (Fin 2, Fin 3), (Fin 2, Fin 6), (Fin 2, Fin 9),
                          (Fin 3, Fin 6), (Fin 3, Fin 9)]\<rparr>"
proof (intro conjI impI)
  assume "cir_exists w = Inr True
      \<and> edit_netlist w (Wn_str w Wn_um) (Wp_str w Wp_um) (L_str w L_um) = Inr ()
      \<and> run_and_wait w = Inr () \<and> \<not> 0 < failSim w \<and> completed_tasks w \<noteq> []
      \<and> last (completed_tasks w) = Some log_file \<and> log_exists w = Inr True
      \<and> extract_measures w = Inr (PyNone, PyNone)"
  then show "run_simulation_and_extract_delay True w Wn_um Wp_um L_um =
           Inr \<lparr>success = True, delay_ns = Fin 1000, tphl = Fin 1000, tplh = Fin 1000\<rparr>"
    using run_no_measures by blast
next
  show "py_lt (Fin 1000) (delay_ns FAILURE)" by (simp add: FAILURE_def lit_1e6)
next
  assume "kept Wn Wp
        \<and> sim Wn Wp L =
            Inr \<lparr>success = True, delay_ns = Fin 1000, tphl = Fin 1000, tplh = Fin 1000\<rparr>
        \<and> py_lt (Fin 1000) (best_delay st)"
  then show "grid_body sim L Wn Wp st =
             Inr (st\<lparr>evaluated := evaluated st @ [(Wn, Wp)], best_delay := Fin 1000,
                     best_params := Some (Wn, Wp, L)\<rparr>)"
    using sentinel_step by blast
next
  show "sim_displace (Fin 1) (Fin 3) L_val =
        Inr \<lparr>success = True, delay_ns = Fin 2000, tphl = Fin 2000, tplh = Fin 2000\<rparr>"
    by (simp add: sim_displace_def run_env_slow)
next
  show "sim_displace (Fin 2) (Fin 3) L_val =
        Inr \<lparr>success = True, delay_ns = Fin 1000, tphl = Fin 1000, tplh = Fin 1000\<rparr>"
    by (simp add: sim_displace_def run_env_no_measures)
next
  show "grid_search sim_displace =
        Inr \<lparr>best_delay = Fin 1000, best_params = Some (Fin 2, Fin 3, L_val),
             evaluated = [(Fin 1, Fin 3), (Fin 2, Fin 3), (Fin 2, Fin 6), (Fin 2, Fin 9),
                          (Fin 3, Fin 6), (Fin 3, Fin 9)]\<rparr>"
    by (rule sim_displace_search)
qed

theorem C10_all_sentinel_outcome_witness:
  "extract_measures env_no_measures = Inr (PyNone, PyNone)
   \<and> run_simulation_and_extract_delay True env_no_measures (Fin 2) (Fin 3) L_val =
       Inr \<lparr>success = True, delay_ns = Fin 1000, tphl = Fin 1000, tplh = Fin 1000\<rparr>
   \<and> kept (Fin 2) (Fin 3)
   \<and> grid_body sim_displace L_val (Fin 2) (Fin 3)
        \<lparr>best_delay = Fin 2000, best_params = Some (Fin 1, Fin 3, L_val),
         evaluated = [(Fin 1, Fin 3)]\<rparr>
       = Inr \<lparr>best_delay = Fin 1000, best_params = Some (Fin 2, Fin 3, L_val),
              evaluated = [(Fin 1, Fin 3), (Fin 2, Fin 3)]\<rparr>"
proof -
  let ?s = "\<lparr>best_delay = Fin 2000, best_params = Some (Fin 1, Fin 3, L_val),
         evaluated = [(Fin 1, Fin 3)]\<rparr>"
  note t = C10_all_sentinel_outcome[of env_no_measures "Fin 2" "Fin 3" L_val
      "''inverter_cmos.log''" "Fin 2" "Fin 3" sim_displace L_val ?s]
  have e: "cir_exists env_no_measures = Inr True
      \<and> edit_netlist env_no_measures (Wn_str env_no_measures (Fin 2))
          (Wp_str env_no_measures (Fin 3)) (L_str env_no_measures L_val) = Inr ()
      \<and> run_and_wait env_no_measures = Inr () \<and> \<not> 0 < failSim env_no_measures
      \<and> completed_tasks env_no_measures \<noteq> []
      \<and> last (completed_tasks env_no_measures) = Some ''inverter_cmos.log''
      \<and> log_exists env_no_measures = Inr True"
    by (simp add: env_no_measures_def env_ok_def)
  have r: "run_simulation_and_extract_delay True env_no_measures (Fin 2) (Fin 3) L_val =
       Inr \<lparr>success = True, delay_ns = Fin 1000, tphl = Fin 1000, tplh = Fin 1000\<rparr>"
    using t e extract_no_measures by blast
  have k: "kept (Fin 2) (Fin 3)" by (rule kept_grid)
  have s: "sim_displace (Fin 2) (Fin 3) L_val =
        Inr \<lparr>success = True, delay_ns = Fin 1000, tphl = Fin 1000, tplh = Fin 1000\<rparr>"
    using t by blast
  have l: "py_lt (Fin 1000) (best_delay ?s)" by simp
  have "grid_body sim_displace L_val (Fin 2) (Fin 3) ?s =
          Inr (?s\<lparr>evaluated := evaluated ?s @ [(Fin 2, Fin 3)], best_delay := Fin 1000,
                  best_params := Some (Fin 2, Fin 3, L_val)\<rparr>)"
    using t k s l by blast
  then show ?thesis using extract_no_measures r k by simp
qed

section \<open>The analytical evaluator\<close>

lemma between_ieee_div:
  assumes "between a i j" "between b k l" "- 1022 \<le> i - l" "j - k \<le> 1023"
  shows "between (ieee_div a b) (i - l) (j - k)"
proof -
  from between_div[OF assms] obtain q where q: "py_truediv a b = Inr q" "between q (i - l) (j - k)"
    by blast
  from assms(2) have "b \<noteq> Fin 0" using powi2_le_pos[of k 0] by (cases b) auto
  with q show ?thesis by (simp add: py_truediv_def)
qed

lemma between_sub:
  assumes "between a i j" "between b k l" "2 powi p \<le> (2::real) powi i - 2 powi l"
    and "- 1022 \<le> p" "j \<le> 1023"
  shows "between (py_sub a b) p j"
proof -
  from assms(1) obtain x where a: "a = Fin x" "2 powi i \<le> x" "x \<le> 2 powi j" by (rule betweenE)
  from assms(2) obtain y where b: "b = Fin y" "2 powi k \<le> y" "y \<le> 2 powi l" by (rule betweenE)
  have y0: "0 < y" using b(2) by (rule powi2_le_pos)
  have lo: "2 powi p \<le> x - y" using assms(3) a(2) b(3) by linarith
  have hi: "x - y \<le> 2 powi j" using a(3) y0 by linarith
  have "between (rnd (x + - y)) p j" using lo hi assms(4,5) by (intro between_rnd) simp_all
  then show ?thesis by (simp add: a b py_sub_def)
qed

lemma between_lit:
  "2 powi i \<le> x \<Longrightarrow> x \<le> 2 powi j \<Longrightarrow> - 1022 \<le> i \<Longrightarrow> j \<le> 1023 \<Longrightarrow> between (float_lit x) i j"
  unfolding float_lit_def by (rule between_rnd)

lemma VDD_range: "between VDD 1 2"
  unfolding VDD_def by (rule between_lit) simp_all

lemma VTH_N_range: "between VTH_N (- 2) (- 1)"
  unfolding VTH_N_def by (rule between_lit) simp_all

lemma VTH_P_range: "between VTH_P (- 1) 0"
  unfolding VTH_P_def by (rule between_lit) simp_all

lemma U0_N_range: "between U0_N 8 9"
  unfolding U0_N_def by (rule between_lit) simp_all

lemma U0_P_range: "between U0_P 7 8"
  unfolding U0_P_def by (rule between_lit) simp_all

lemma TOX_range: "between TOX (- 27) (- 26)"
  unfolding TOX_def by (rule between_lit) simp_all

lemma EPS_OX_range: "between EPS_OX (- 36) (- 34)"
proof -
  have a: "between (float_lit (39 / 10)) 1 2" by (rule between_lit) simp_all
  have b: "between (float_lit (885 / 10 ^ 14)) (- 37) (- 36)" by (rule between_lit) simp_all
  show ?thesis unfolding EPS_OX_def using between_mul[OF a b] by simp
qed

lemma COX_range: "between COX (- 10) (- 7)"
  unfolding COX_def using between_ieee_div[OF EPS_OX_range TOX_range] by simp

lemma lit_1em4_range: "between (float_lit (1 / 10 ^ 4)) (- 14) (- 13)"
  by (rule between_lit) simp_all

lemma MU_N_range: "between MU_N (- 6) (- 4)"
  unfolding MU_N_def using between_mul[OF U0_N_range lit_1em4_range] by simp

lemma MU_P_range: "between MU_P (- 7) (- 5)"
  unfolding MU_P_def using between_mul[OF U0_P_range lit_1em4_range] by simp

lemma KPRIME_N_range: "between KPRIME_N (- 16) (- 11)"
  unfolding KPRIME_N_def using between_mul[OF MU_N_range COX_range] by simp

lemma KPRIME_P_range: "between KPRIME_P (- 17) (- 12)"
  unfolding KPRIME_P_def using between_mul[OF MU_P_range COX_range] by simp

lemma CL_range: "between CL (- 47) (- 46)"
  unfolding CL_def by (rule between_lit) simp_all

lemma F_CLK_range: "between F_CLK 26 27"
  unfolding F_CLK_def by (rule between_lit) simp_all

lemma ALPHA_DELAY_range: "between ALPHA_DELAY (- 1) 0"
  unfolding ALPHA_DELAY_def by (rule between_lit) simp_all

lemma micro_range: "between (float_lit (1 / 10 ^ 6)) (- 20) (- 19)"
  by (rule between_lit) simp_all

lemma sentinel_R_range: "between (float_lit (10 ^ 12)) 39 40"
  by (rule between_lit) simp_all

lemma I_LEAK_range: "between (float_lit (10 / 10 ^ 9)) (- 27) (- 26)"
  by (rule between_lit) simp_all

lemma VOD_N_range: "between (py_sub VDD VTH_N) 0 2"
  by (rule between_sub[OF VDD_range VTH_N_range]) simp_all

lemma VOD_P_range: "between (py_sub VDD VTH_P) 0 2"
  by (rule between_sub[OF VDD_range VTH_P_range]) simp_all

lemma P_dyn_range: "between (py_mul (py_mul CL (py_sq VDD)) F_CLK) (- 19) (- 15)"
proof -
  have s: "between (py_sq VDD) 2 4" unfolding py_sq_def using between_mul[OF VDD_range VDD_range] by simp
  have "between (py_mul CL (py_sq VDD)) (- 45) (- 42)" using between_mul[OF CL_range s] by simp
  from between_mul[OF this F_CLK_range] show ?thesis by simp
qed

lemma P_stat_range: "between (py_mul (float_lit (10 / 10 ^ 9)) VDD) (- 26) (- 24)"
  using between_mul[OF I_LEAK_range VDD_range] by simp

lemma P_total_range:
  "between (py_add (py_mul (py_mul CL (py_sq VDD)) F_CLK) (py_mul (float_lit (10 / 10 ^ 9)) VDD))
     (- 19) (- 14)"
  using between_add[OF P_dyn_range P_stat_range] by simp

lemma between_nonzero: "between d i j \<Longrightarrow> d \<noteq> Fin 0"
  using powi2_le_pos[of i 0] by (cases d) auto

lemma leg_on:
  assumes W: "between W a b" and L: "between L e f" and K: "between K k1 k2"
    and V: "between VOD 0 2"
    and r: "- 1002 \<le> a" "b \<le> 1042" "- 1002 \<le> e" "f \<le> 1042" "- 900 \<le> a - f"
      "b - e \<le> 900" "- 20 \<le> k1" "k2 \<le> 0"
  shows "\<exists>R. (if py_gt (py_mul W (float_lit (1 / 10 ^ 6))) (Fin 0)
              then bind_exn (py_truediv (py_mul W (float_lit (1 / 10 ^ 6)))
                               (py_mul L (float_lit (1 / 10 ^ 6))))
                     (\<lambda>q. py_truediv (float_lit 1) (py_mul (py_mul K q) VOD))
              else Inr (float_lit (10 ^ 12))) = Inr R
           \<and> between (py_mul (py_mul ALPHA_DELAY R) CL) (e - b - k2 - 51) (f - a - k1 - 45)"
proof -
  let ?c = "float_lit (1 / 10 ^ 6)"
  have Wm: "between (py_mul W ?c) (a - 20) (b - 19)"
    using between_mul[OF W micro_range] r by simp
  have Lm: "between (py_mul L ?c) (e - 20) (f - 19)"
    using between_mul[OF L micro_range] r by simp
  have g: "py_gt (py_mul W ?c) (Fin 0)" using between_pos[OF Wm] by simp
  from between_div[OF Wm Lm] r obtain q where q: "py_truediv (py_mul W ?c) (py_mul L ?c) = Inr q"
    and qr: "between q (a - 20 - (f - 19)) (b - 19 - (e - 20))" by auto
  have Kq: "between (py_mul K q) (k1 + (a - 20 - (f - 19))) (k2 + (b - 19 - (e - 20)))"
    using between_mul[OF K qr] r by simp
  have KqV: "between (py_mul (py_mul K q) VOD) (k1 + (a - 20 - (f - 19)) + 0)
               (k2 + (b - 19 - (e - 20)) + 2)"
    using between_mul[OF Kq V] r by simp
  have one: "between (float_lit 1) 0 0" by (simp add: float_lit_1)
  from between_div[OF one KqV] r obtain R
    where R: "py_truediv (float_lit 1) (py_mul (py_mul K q) VOD) = Inr R"
    and Rr: "between R (0 - (k2 + (b - 19 - (e - 20)) + 2)) (0 - (k1 + (a - 20 - (f - 19)) + 0))"
    by auto
  have aR: "between (py_mul ALPHA_DELAY R) (- 1 + (0 - (k2 + (b - 19 - (e - 20)) + 2)))
              (0 + (0 - (k1 + (a - 20 - (f - 19)) + 0)))"
    using between_mul[OF ALPHA_DELAY_range Rr] r by simp
  have "between (py_mul (py_mul ALPHA_DELAY R) CL)
          (- 1 + (0 - (k2 + (b - 19 - (e - 20)) + 2)) + - 47)
          (0 + (0 - (k1 + (a - 20 - (f - 19)) + 0)) + - 46)"
    using between_mul[OF aR CL_range] r by simp
  then have "between (py_mul (py_mul ALPHA_DELAY R) CL) (e - b - k2 - 51) (f - a - k1 - 45)"
    by (rule between_weaken) simp_all
  with g q R show ?thesis by (simp add: bind_exn_def)
qed

lemma sentinel_leg: "between (py_mul (py_mul ALPHA_DELAY (float_lit (10 ^ 12))) CL) (- 9) (- 6)"
proof -
  have "between (py_mul ALPHA_DELAY (float_lit (10 ^ 12))) 38 40"
    using between_mul[OF ALPHA_DELAY_range sentinel_R_range] by simp
  from between_mul[OF this CL_range] show ?thesis by simp
qed

lemma nonpositive_width:
  assumes "py_le W (Fin 0)"
  shows "\<not> py_gt (py_mul W (float_lit (1 / 10 ^ 6))) (Fin 0)"
proof -
  have "between (float_lit (1 / 1000000)) (- 20) (- 19)" using micro_range by simp
  then obtain c where c: "float_lit (1 / 1000000) = Fin c" "2 powi (- 20) \<le> c"
    by (rule betweenE)
  have c0: "0 < c" using c(2) by (rule powi2_le_pos)
  show ?thesis
  proof (cases W)
    case (Fin w)
    with assms have "w \<le> 0" by simp
    then have "w * c \<le> 0" using c0 by (simp add: mult_le_0_iff)
    from rnd_nonpos[OF this] show ?thesis by (auto simp: Fin c py_gt_def)
  next
    case NInf
    then show ?thesis using c0 by (simp add: c py_gt_def)
  qed (use assms in simp_all)
qed

lemma leg_off:
  assumes "py_le W (Fin 0)"
  shows "(if py_gt (py_mul W (float_lit (1 / 10 ^ 6))) (Fin 0)
              then bind_exn (py_truediv (py_mul W (float_lit (1 / 10 ^ 6)))
                               (py_mul L (float_lit (1 / 10 ^ 6))))
                     (\<lambda>q. py_truediv (float_lit 1) (py_mul (py_mul K q) VOD))
              else Inr (float_lit (10 ^ 12))) = Inr (float_lit (10 ^ 12))"
  using nonpositive_width[OF assms] by simp

lemma compute_performances_legs:
  assumes "(if py_gt (py_mul Wn (float_lit (1 / 10 ^ 6))) (Fin 0)
              then bind_exn (py_truediv (py_mul Wn (float_lit (1 / 10 ^ 6)))
                               (py_mul L (float_lit (1 / 10 ^ 6))))
                     (\<lambda>q. py_truediv (float_lit 1) (py_mul (py_mul KPRIME_N q) (py_sub VDD VTH_N)))
              else Inr (float_lit (10 ^ 12))) = Inr R_n"
    and "(if py_gt (py_mul Wp (float_lit (1 / 10 ^ 6))) (Fin 0)
              then bind_exn (py_truediv (py_mul Wp (float_lit (1 / 10 ^ 6)))
                               (py_mul L (float_lit (1 / 10 ^ 6))))
                     (\<lambda>q. py_truediv (float_lit 1) (py_mul (py_mul KPRIME_P q) (py_sub VDD VTH_P)))
              else Inr (float_lit (10 ^ 12))) = Inr R_p"
  shows "compute_performances Wn Wp L =
           Inr \<lparr>delay = ieee_div (py_add (py_mul (py_mul ALPHA_DELAY R_n) CL)
                                   (py_mul (py_mul ALPHA_DELAY R_p) CL)) (Fin 2),
                power_dyn = py_mul (py_mul CL (py_sq VDD)) F_CLK,
                power_stat = py_mul (float_lit (10 / 10 ^ 9)) VDD,
                power_total = py_add (py_mul (py_mul CL (py_sq VDD)) F_CLK)
                                (py_mul (float_lit (10 / 10 ^ 9)) VDD),
                area = py_mul (py_mul (py_add Wn Wp) L) (float_lit 3)\<rparr>"
  unfolding compute_performances_def Let_def assms by (simp add: bind_exn_def halve)

lemma delay_range:
  assumes "between tn i1 j1" "between tp i2 j2"
    and "- 1000 \<le> i1" "- 1000 \<le> i2" "j1 \<le> 1000" "j2 \<le> 1000"
  shows "between (ieee_div (py_add tn tp) (Fin 2)) (max i1 i2 - 1) (max j1 j2)"
proof -
  have s: "between (py_add tn tp) (max i1 i2) (max j1 j2 + 1)"
    using between_add[OF assms(1,2)] assms(3-) by simp
  have two: "between (Fin 2) 1 1" by simp
  from between_ieee_div[OF s two] assms(3-) show ?thesis by simp
qed

lemma area_range:
  assumes "between Wn a b" "between Wp c d" "between L e f"
    and "- 250 \<le> a" "b \<le> 250" "- 250 \<le> c" "d \<le> 250" "- 250 \<le> e" "f \<le> 250"
  shows "between (py_mul (py_mul (py_add Wn Wp) L) (float_lit 3)) (max a c + e + 1)
           (max b d + 1 + f + 2)"
proof -
  have s: "between (py_add Wn Wp) (max a c) (max b d + 1)"
    using between_add[OF assms(1,2)] assms(4-) by simp
  have m: "between (py_mul (py_add Wn Wp) L) (max a c + e) (max b d + 1 + f)"
    using between_mul[OF s assms(3)] assms(4-) by simp
  have three: "between (float_lit 3) 1 2" by (simp add: float_lit_3)
  from between_mul[OF m three] assms(4-) show ?thesis by simp
qed

lemma rnd_overflow:
  assumes "overflow_limit \<le> x"
  shows "rnd x = PInf"
proof -
  have x0: "0 \<le> x" using assms overflow_limit_pos by linarith
  have "(2::real) powi 1023 \<le> overflow_limit" unfolding overflow_limit_def by (rule powi2_mono) simp
  with assms have "2 powi 1023 \<le> x" by simp
  then have b: "binade 1023 x = 1023" using binade.simps[of 1023 x] by simp
  have q: "quantum x = 2 powi 971" by (simp add: quantum_def b del: power_int_numeral)
  have q0: "0 < (2::real) powi 971" by (rule zero_less_power_int) simp
  have s: "overflow_limit = of_int (2 ^ 53) * 2 powi 971"
  proof -
    have "(2::real) powi (53 + 971) = 2 powi 53 * 2 powi 971" by (rule power_int_add) simp
    moreover have "(2::real) powi 53 = of_int (2 ^ 53)" by simp
    moreover have "(53::int) + 971 = 1024" by simp
    ultimately show ?thesis unfolding overflow_limit_def by (simp only:)
  qed
  have "of_int (2 ^ 53) \<le> x / 2 powi 971"
    using assms q0 unfolding s by (simp only: pos_le_divide_eq)
  then have "2 ^ 53 \<le> half_even (x / 2 powi 971)" by (rule half_even_mono_int)
  then have "of_int (2 ^ 53) \<le> (of_int (half_even (x / 2 powi 971)) :: real)"
    by (simp only: of_int_le_iff)
  then have "of_int (2 ^ 53) * (2::real) powi 971 \<le> of_int (half_even (x / 2 powi 971)) * 2 powi 971"
    using q0 by (intro mult_right_mono) (simp_all only: less_imp_le)
  then have "overflow_limit \<le> round_mag x" unfolding s round_mag_def q .
  then show ?thesis using rnd_pos_unfold[OF x0] by simp
qed

lemma sandwich:
  "py_le lo x \<Longrightarrow> py_le x hi \<Longrightarrow> between lo i i' \<Longrightarrow> between hi j' j \<Longrightarrow> between x i j"
  by (cases x; cases lo; cases hi) auto

lemma lit_half: "float_lit (1 / 2) = Fin (1 / 2)"
  unfolding float_lit_def by (rule rnd_dyadic[where k = "- 1" and m = "2 ^ 52"]) simp_all

lemma in_bounds_between:
  assumes "in_bounds Wn Wp L"
  shows "between Wn (- 1) 6" "between Wp (- 1) 8" "between L (- 2) 0"
proof -
  have h: "between (float_lit (1 / 2)) (- 1) (- 1)" by (simp add: lit_half)
  have a: "between (float_lit 50) 5 6" by (rule between_lit) simp_all
  have b: "between (float_lit 150) 7 8" by (rule between_lit) simp_all
  have c: "between (float_lit (7 / 20)) (- 2) (- 1)" by (rule between_lit) simp_all
  have d: "between (float_lit 1) 0 0" by (simp add: float_lit_1)
  from assms have l: "py_le (float_lit (1 / 2)) Wn" "py_le Wn (float_lit 50)"
    "py_le (float_lit (1 / 2)) Wp" "py_le Wp (float_lit 150)"
    "py_le (float_lit (7 / 20)) L" "py_le L (float_lit 1)"
    by (simp_all add: in_bounds_def xl_def xu_def)
  show "between Wn (- 1) 6" by (rule sandwich[OF l(1,2) h a])
  show "between Wp (- 1) 8" by (rule sandwich[OF l(3,4) h b])
  show "between L (- 2) 0" by (rule sandwich[OF l(5,6) c d])
qed

lemma between_gt: "between x i j \<Longrightarrow> between y k l \<Longrightarrow> l < i \<Longrightarrow> py_gt x y"
proof -
  assume a: "between x i j" "between y k l" "l < i"
  from a(1) obtain u where u: "x = Fin u" "2 powi i \<le> u" by (rule betweenE)
  from a(2) obtain v where v: "y = Fin v" "v \<le> 2 powi l" by (rule betweenE)
  have "(2::real) powi l < 2 powi i" using a(3) by (intro power_int_strict_increasing) simp_all
  with u v show ?thesis by (simp add: py_gt_def)
qed

lemma compute_performances_wide:
  assumes "between Wn (- 200) 200" "between Wp (- 200) 200" "between L (- 200) 200"
  shows "\<exists>p. compute_performances Wn Wp L = Inr p \<and> between (delay p) (- 440) 372
           \<and> between (power_dyn p) (- 19) (- 15) \<and> between (power_stat p) (- 26) (- 24)
           \<and> between (power_total p) (- 19) (- 14) \<and> between (area p) (- 399) 403
           \<and> power_total p = py_add (power_dyn p) (power_stat p)"
proof -
  from leg_on[OF assms(1,3) KPRIME_N_range VOD_N_range] obtain R_n
    where n: "(if py_gt (py_mul Wn (float_lit (1 / 10 ^ 6))) (Fin 0)
              then bind_exn (py_truediv (py_mul Wn (float_lit (1 / 10 ^ 6)))
                               (py_mul L (float_lit (1 / 10 ^ 6))))
                     (\<lambda>q. py_truediv (float_lit 1) (py_mul (py_mul KPRIME_N q) (py_sub VDD VTH_N)))
              else Inr (float_lit (10 ^ 12))) = Inr R_n"
    and nr: "between (py_mul (py_mul ALPHA_DELAY R_n) CL) (- 440) 371"
    by auto
  from leg_on[OF assms(2,3) KPRIME_P_range VOD_P_range] obtain R_p
    where p: "(if py_gt (py_mul Wp (float_lit (1 / 10 ^ 6))) (Fin 0)
              then bind_exn (py_truediv (py_mul Wp (float_lit (1 / 10 ^ 6)))
                               (py_mul L (float_lit (1 / 10 ^ 6))))
                     (\<lambda>q. py_truediv (float_lit 1) (py_mul (py_mul KPRIME_P q) (py_sub VDD VTH_P)))
              else Inr (float_lit (10 ^ 12))) = Inr R_p"
    and pr: "between (py_mul (py_mul ALPHA_DELAY R_p) CL) (- 439) 372"
    by auto
  note c = compute_performances_legs[OF n p]
  have d: "between (ieee_div (py_add (py_mul (py_mul ALPHA_DELAY R_n) CL)
                                   (py_mul (py_mul ALPHA_DELAY R_p) CL)) (Fin 2)) (- 440) 372"
    using delay_range[OF nr pr] by simp
  have a: "between (py_mul (py_mul (py_add Wn Wp) L) (float_lit 3)) (- 399) 403"
    using area_range[OF assms] by simp
  show ?thesis unfolding c using d a P_dyn_range P_stat_range P_total_range by simp
qed

lemma compute_performances_declared:
  assumes "in_bounds Wn Wp L"
  shows "\<exists>p. compute_performances Wn Wp L = Inr p \<and> between (delay p) (- 49) (- 27)"
proof -
  note b = in_bounds_between[OF assms]
  from leg_on[OF b(1,3) KPRIME_N_range VOD_N_range] obtain R_n
    where n: "(if py_gt (py_mul Wn (float_lit (1 / 10 ^ 6))) (Fin 0)
              then bind_exn (py_truediv (py_mul Wn (float_lit (1 / 10 ^ 6)))
                               (py_mul L (float_lit (1 / 10 ^ 6))))
                     (\<lambda>q. py_truediv (float_lit 1) (py_mul (py_mul KPRIME_N q) (py_sub VDD VTH_N)))
              else Inr (float_lit (10 ^ 12))) = Inr R_n"
    and nr: "between (py_mul (py_mul ALPHA_DELAY R_n) CL) (- 48) (- 28)"
    by auto
  from leg_on[OF b(2,3) KPRIME_P_range VOD_P_range] obtain R_p
    where p: "(if py_gt (py_mul Wp (float_lit (1 / 10 ^ 6))) (Fin 0)
              then bind_exn (py_truediv (py_mul Wp (float_lit (1 / 10 ^ 6)))
                               (py_mul L (float_lit (1 / 10 ^ 6))))
                     (\<lambda>q. py_truediv (float_lit 1) (py_mul (py_mul KPRIME_P q) (py_sub VDD VTH_P)))
              else Inr (float_lit (10 ^ 12))) = Inr R_p"
    and pr: "between (py_mul (py_mul ALPHA_DELAY R_p) CL) (- 49) (- 27)"
    by auto
  note c = compute_performances_legs[OF n p]
  have d: "between (ieee_div (py_add (py_mul (py_mul ALPHA_DELAY R_n) CL)
                                   (py_mul (py_mul ALPHA_DELAY R_p) CL)) (Fin 2)) (- 49) (- 27)"
    using delay_range[OF nr pr] by simp
  show ?thesis unfolding c using d by simp
qed

lemma leg_any:
  assumes "py_le W (Fin 0) \<or> between W (- 200) 200" and L: "between L (- 200) 200"
    and K: "between K k1 k2" and V: "between VOD 0 2" and k: "- 17 \<le> k1" "k2 \<le> - 11"
  shows "\<exists>R. (if py_gt (py_mul W (float_lit (1 / 10 ^ 6))) (Fin 0)
              then bind_exn (py_truediv (py_mul W (float_lit (1 / 10 ^ 6)))
                               (py_mul L (float_lit (1 / 10 ^ 6))))
                     (\<lambda>q. py_truediv (float_lit 1) (py_mul (py_mul K q) VOD))
              else Inr (float_lit (10 ^ 12))) = Inr R
           \<and> between (py_mul (py_mul ALPHA_DELAY R) CL) (- 440) 372"
  using assms(1)
proof
  assume "py_le W (Fin 0)"
  from leg_off[OF this] between_weaken[OF sentinel_leg, of "- 440" 372] show ?thesis by simp
next
  assume W: "between W (- 200) 200"
  from leg_on[OF W L K V] k obtain R
    where r1: "(if py_gt (py_mul W (float_lit (1 / 10 ^ 6))) (Fin 0)
              then bind_exn (py_truediv (py_mul W (float_lit (1 / 10 ^ 6)))
                               (py_mul L (float_lit (1 / 10 ^ 6))))
                     (\<lambda>q. py_truediv (float_lit 1) (py_mul (py_mul K q) VOD))
              else Inr (float_lit (10 ^ 12))) = Inr R"
    and r2: "between (py_mul (py_mul ALPHA_DELAY R) CL) (- 200 - 200 - k2 - 51)
               (200 - - 200 - k1 - 45)"
    by auto
  have "between (py_mul (py_mul ALPHA_DELAY R) CL) (- 440) 372"
    by (rule between_weaken[OF r2]) (use k in simp_all)
  with r1 show ?thesis by blast
qed

lemma degenerate_nmos:
  assumes "py_le Wn (Fin 0)" "py_le Wp (Fin 0) \<or> between Wp (- 200) 200" "between L (- 200) 200"
  shows "\<exists>R_p p.
           (if py_gt (py_mul Wp (float_lit (1 / 10 ^ 6))) (Fin 0)
            then bind_exn (py_truediv (py_mul Wp (float_lit (1 / 10 ^ 6)))
                             (py_mul L (float_lit (1 / 10 ^ 6))))
                   (\<lambda>q. py_truediv (float_lit 1) (py_mul (py_mul KPRIME_P q) (py_sub VDD VTH_P)))
            else Inr (float_lit (10 ^ 12))) = Inr R_p
           \<and> compute_performances Wn Wp L = Inr p
           \<and> delay p = ieee_div (py_add (py_mul (py_mul ALPHA_DELAY (float_lit (10 ^ 12))) CL)
                                   (py_mul (py_mul ALPHA_DELAY R_p) CL)) (Fin 2)
           \<and> between (delay p) (- 10) 372"
proof -
  note n = leg_off[OF assms(1), of L KPRIME_N "py_sub VDD VTH_N"]
  from leg_any[OF assms(2,3) KPRIME_P_range VOD_P_range] obtain R_p
    where p: "(if py_gt (py_mul Wp (float_lit (1 / 10 ^ 6))) (Fin 0)
              then bind_exn (py_truediv (py_mul Wp (float_lit (1 / 10 ^ 6)))
                               (py_mul L (float_lit (1 / 10 ^ 6))))
                     (\<lambda>q. py_truediv (float_lit 1) (py_mul (py_mul KPRIME_P q) (py_sub VDD VTH_P)))
              else Inr (float_lit (10 ^ 12))) = Inr R_p"
    and pr: "between (py_mul (py_mul ALPHA_DELAY R_p) CL) (- 440) 372"
    by auto
  note c = compute_performances_legs[OF n p]
  have d: "between (ieee_div (py_add (py_mul (py_mul ALPHA_DELAY (float_lit (10 ^ 12))) CL)
                                   (py_mul (py_mul ALPHA_DELAY R_p) CL)) (Fin 2)) (- 10) 372"
    using delay_range[OF sentinel_leg pr] by simp
  show ?thesis
  proof (intro exI conjI)
    show "(if py_gt (py_mul Wp (float_lit (1 / 10 ^ 6))) (Fin 0)
              then bind_exn (py_truediv (py_mul Wp (float_lit (1 / 10 ^ 6)))
                               (py_mul L (float_lit (1 / 10 ^ 6))))
                     (\<lambda>q. py_truediv (float_lit 1) (py_mul (py_mul KPRIME_P q) (py_sub VDD VTH_P)))
              else Inr (float_lit (10 ^ 12))) = Inr R_p"
      by (rule p)
    show "compute_performances Wn Wp L =
           Inr \<lparr>delay = ieee_div (py_add (py_mul (py_mul ALPHA_DELAY (float_lit (10 ^ 12))) CL)
                                   (py_mul (py_mul ALPHA_DELAY R_p) CL)) (Fin 2),
                power_dyn = py_mul (py_mul CL (py_sq VDD)) F_CLK,
                power_stat = py_mul (float_lit (10 / 10 ^ 9)) VDD,
                power_total = py_add (py_mul (py_mul CL (py_sq VDD)) F_CLK)
                                (py_mul (float_lit (10 / 10 ^ 9)) VDD),
                area = py_mul (py_mul (py_add Wn Wp) L) (float_lit 3)\<rparr>"
      by (rule c)
  qed (use d in simp_all)
qed

lemma degenerate_pmos:
  assumes "py_le Wp (Fin 0)" "py_le Wn (Fin 0) \<or> between Wn (- 200) 200" "between L (- 200) 200"
  shows "\<exists>R_n p.
           (if py_gt (py_mul Wn (float_lit (1 / 10 ^ 6))) (Fin 0)
            then bind_exn (py_truediv (py_mul Wn (float_lit (1 / 10 ^ 6)))
                             (py_mul L (float_lit (1 / 10 ^ 6))))
                   (\<lambda>q. py_truediv (float_lit 1) (py_mul (py_mul KPRIME_N q) (py_sub VDD VTH_N)))
            else Inr (float_lit (10 ^ 12))) = Inr R_n
           \<and> compute_performances Wn Wp L = Inr p
           \<and> delay p = ieee_div (py_add (py_mul (py_mul ALPHA_DELAY R_n) CL)
                                   (py_mul (py_mul ALPHA_DELAY (float_lit (10 ^ 12))) CL)) (Fin 2)
           \<and> between (delay p) (- 10) 372"
proof -
  note p = leg_off[OF assms(1), of L KPRIME_P "py_sub VDD VTH_P"]
  from leg_any[OF assms(2,3) KPRIME_N_range VOD_N_range] obtain R_n
    where n: "(if py_gt (py_mul Wn (float_lit (1 / 10 ^ 6))) (Fin 0)
              then bind_exn (py_truediv (py_mul Wn (float_lit (1 / 10 ^ 6)))
                               (py_mul L (float_lit (1 / 10 ^ 6))))
                     (\<lambda>q. py_truediv (float_lit 1) (py_mul (py_mul KPRIME_N q) (py_sub VDD VTH_N)))
              else Inr (float_lit (10 ^ 12))) = Inr R_n"
    and nr: "between (py_mul (py_mul ALPHA_DELAY R_n) CL) (- 440) 372"
    by auto
  note c = compute_performances_legs[OF n p]
  have d: "between (ieee_div (py_add (py_mul (py_mul ALPHA_DELAY R_n) CL)
             (py_mul (py_mul ALPHA_DELAY (float_lit (10 ^ 12))) CL)) (Fin 2)) (- 10) 372"
    using delay_range[OF nr sentinel_leg] by simp
  show ?thesis
  proof (intro exI conjI)
    show "(if py_gt (py_mul Wn (float_lit (1 / 10 ^ 6))) (Fin 0)
              then bind_exn (py_truediv (py_mul Wn (float_lit (1 / 10 ^ 6)))
                               (py_mul L (float_lit (1 / 10 ^ 6))))
                     (\<lambda>q. py_truediv (float_lit 1) (py_mul (py_mul KPRIME_N q) (py_sub VDD VTH_N)))
              else Inr (float_lit (10 ^ 12))) = Inr R_n"
      by (rule n)
    show "compute_performances Wn Wp L =
           Inr \<lparr>delay = ieee_div (py_add (py_mul (py_mul ALPHA_DELAY R_n) CL)
                                   (py_mul (py_mul ALPHA_DELAY (float_lit (10 ^ 12))) CL)) (Fin 2),
                power_dyn = py_mul (py_mul CL (py_sq VDD)) F_CLK,
                power_stat = py_mul (float_lit (10 / 10 ^ 9)) VDD,
                power_total = py_add (py_mul (py_mul CL (py_sq VDD)) F_CLK)
                                (py_mul (float_lit (10 / 10 ^ 9)) VDD),
                area = py_mul (py_mul (py_add Wn Wp) L) (float_lit 3)\<rparr>"
      by (rule c)
  qed (use d in simp_all)
qed

lemma threshold_range: "between (float_lit (1 / 100)) (- 7) (- 6)"
  by (rule between_lit) simp_all

lemma above_threshold_nonzero:
  assumes "py_gt Wn (float_lit (1 / 100))"
  shows "Wn \<noteq> Fin 0"
proof
  assume "Wn = Fin 0"
  moreover from threshold_range obtain c where "float_lit (1 / 100) = Fin c" "2 powi (- 7) \<le> c"
    by (rule betweenE)
  moreover from this(2) have "0 < c" by (rule powi2_le_pos)
  ultimately show False using assms by (simp add: py_gt_def)
qed

lemma ratio_returns:
  "\<exists>ratio. (if py_gt Wn (float_lit (1 / 100)) then py_truediv Wp Wn else Inr (float_lit 1))
      = Inr ratio"
  using above_threshold_nonzero[of Wn] by (simp add: py_truediv_def)

text \<open>
  C3. The objective returned by \<^verbatim>\<open>compute_performances_for_optim\<close> is
  \<^verbatim>\<open>1.0 * (delay * 1e9) + 0.01 * (power_total * 1e6) + 0.001 * area\<close> of the record that
  \<^verbatim>\<open>compute_performances\<close> computes on the first three entries of the vector (and the call
  raises what \<^verbatim>\<open>compute_performances\<close> raises).
\<close>

theorem C3_objective:
  "map_sum id fst (compute_performances_for_optim (Wn # Wp # L # rest)) =
     map_sum id
       (\<lambda>perf. [py_add
                   (py_add (py_mul (float_lit 1) (py_mul (delay perf) (float_lit (10 ^ 9))))
                           (py_mul (float_lit (1 / 100))
                              (py_mul (power_total perf) (float_lit (10 ^ 6)))))
                   (py_mul (float_lit (1 / 1000)) (area perf))])
       (compute_performances Wn Wp L)"
proof (cases "compute_performances Wn Wp L")
  case (Inl e)
  then show ?thesis by (simp add: compute_performances_for_optim_def bind_exn_def)
next
  case (Inr perf)
  from ratio_returns[of Wn Wp] obtain ratio
    where "(if py_gt Wn (float_lit (1 / 100)) then py_truediv Wp Wn else Inr (float_lit 1))
             = Inr ratio" ..
  with Inr show ?thesis
    by (simp add: compute_performances_for_optim_def bind_exn_def Let_def)
qed

lemma compute_performances_raises_n:
  assumes "(if py_gt (py_mul Wn (float_lit (1 / 10 ^ 6))) (Fin 0)
              then bind_exn (py_truediv (py_mul Wn (float_lit (1 / 10 ^ 6)))
                               (py_mul L (float_lit (1 / 10 ^ 6))))
                     (\<lambda>q. py_truediv (float_lit 1) (py_mul (py_mul KPRIME_N q) (py_sub VDD VTH_N)))
              else Inr (float_lit (10 ^ 12))) = Inl e"
  shows "compute_performances Wn Wp L = Inl e"
  unfolding compute_performances_def Let_def assms by (simp add: bind_exn_def)

lemma compute_performances_raises_p:
  assumes "(if py_gt (py_mul Wn (float_lit (1 / 10 ^ 6))) (Fin 0)
              then bind_exn (py_truediv (py_mul Wn (float_lit (1 / 10 ^ 6)))
                               (py_mul L (float_lit (1 / 10 ^ 6))))
                     (\<lambda>q. py_truediv (float_lit 1) (py_mul (py_mul KPRIME_N q) (py_sub VDD VTH_N)))
              else Inr (float_lit (10 ^ 12))) = Inr R_n"
    and "(if py_gt (py_mul Wp (float_lit (1 / 10 ^ 6))) (Fin 0)
              then bind_exn (py_truediv (py_mul Wp (float_lit (1 / 10 ^ 6)))
                               (py_mul L (float_lit (1 / 10 ^ 6))))
                     (\<lambda>q. py_truediv (float_lit 1) (py_mul (py_mul KPRIME_P q) (py_sub VDD VTH_P)))
              else Inr (float_lit (10 ^ 12))) = Inl e"
  shows "compute_performances Wn Wp L = Inl e"
  unfolding compute_performances_def Let_def assms by (simp add: bind_exn_def)

text \<open>A conducting transistor and a channel length whose value in metres rounds to zero.\<close>

lemma leg_zero_length:
  assumes W: "between W a b" and r: "- 1002 \<le> a" "b \<le> 1042"
    and L: "py_mul L (float_lit (1 / 10 ^ 6)) = Fin 0"
  shows "(if py_gt (py_mul W (float_lit (1 / 10 ^ 6))) (Fin 0)
              then bind_exn (py_truediv (py_mul W (float_lit (1 / 10 ^ 6)))
                               (py_mul L (float_lit (1 / 10 ^ 6))))
                     (\<lambda>q. py_truediv (float_lit 1) (py_mul (py_mul K q) VOD))
              else Inr (float_lit (10 ^ 12))) = Inl ZeroDivisionError"
proof -
  have "between (py_mul W (float_lit (1 / 10 ^ 6))) (a - 20) (b - 19)"
    using between_mul[OF W micro_range] r by simp
  then have "py_gt (py_mul W (float_lit (1 / 10 ^ 6))) (Fin 0)" using between_pos by blast
  then show ?thesis unfolding L by (simp add: py_truediv_def bind_exn_def)
qed

text \<open>A conducting transistor whose ratio of width to length rounds to zero.\<close>

lemma leg_zero_ratio:
  assumes W: "between W a b" and L: "between L e f" and K: "isfinite K" and V: "isfinite VOD"
    and r: "- 1002 \<le> a" "b \<le> 1042" "- 1002 \<le> e" "f \<le> 1042" "b - e \<le> - 1076"
  shows "(if py_gt (py_mul W (float_lit (1 / 10 ^ 6))) (Fin 0)
              then bind_exn (py_truediv (py_mul W (float_lit (1 / 10 ^ 6)))
                               (py_mul L (float_lit (1 / 10 ^ 6))))
                     (\<lambda>q. py_truediv (float_lit 1) (py_mul (py_mul K q) VOD))
              else Inr (float_lit (10 ^ 12))) = Inl ZeroDivisionError"
proof -
  let ?c = "float_lit (1 / 10 ^ 6)"
  have Wm: "between (py_mul W ?c) (a - 20) (b - 19)"
    using between_mul[OF W micro_range] r by simp
  have Lm: "between (py_mul L ?c) (e - 20) (f - 19)"
    using between_mul[OF L micro_range] r by simp
  have g: "py_gt (py_mul W ?c) (Fin 0)" using between_pos[OF Wm] by simp
  from Wm obtain x where x: "py_mul W ?c = Fin x" "2 powi (a - 20) \<le> x" "x \<le> 2 powi (b - 19)"
    by (rule betweenE)
  from Lm obtain y where y: "py_mul L ?c = Fin y" "2 powi (e - 20) \<le> y" "y \<le> 2 powi (f - 19)"
    by (rule betweenE)
  have x0: "0 < x" using x(2) by (rule powi2_le_pos)
  have y0: "0 < y" using y(2) by (rule powi2_le_pos)
  have "x / y \<le> 2 powi (b - 19) / 2 powi (e - 20)"
    using x(3) y(2) x0 y0 by (intro frac_le) simp_all
  also have "\<dots> = 2 powi (b - 19 - (e - 20))" by (rule power_int_diff[symmetric]) simp
  also have "\<dots> \<le> 2 powi (- 1075)" using r(5) by (intro powi2_mono) simp
  finally have "\<bar>x / y\<bar> \<le> 2 powi (- 1075)" using x0 y0 by simp
  then have "rnd (x / y) = Fin 0" by (rule rnd_tiny)
  then have q: "py_truediv (py_mul W ?c) (py_mul L ?c) = Inr (Fin 0)"
    unfolding x(1) y(1) using y0 by (simp add: py_truediv_def)
  from K obtain k where k: "K = Fin k" by (cases K) simp_all
  from V obtain v where v: "VOD = Fin v" by (cases VOD) simp_all
  have "py_mul (py_mul K (Fin 0)) VOD = Fin 0" by (simp add: k v)
  then show ?thesis using g q by (simp add: bind_exn_def py_truediv_def)
qed

lemma between_finite: "between d i j \<Longrightarrow> isfinite d"
  by (cases d) simp_all

lemma pow2_between: "between (Fin (2 powi k)) k k"
  by simp

lemma lit_50: "float_lit 50 = Fin 50"
  unfolding float_lit_def by (rule rnd_dyadic[where k = 5 and m = 7036874417766400]) simp_all

lemma lit_150: "float_lit 150 = Fin 150"
  unfolding float_lit_def by (rule rnd_dyadic[where k = 7 and m = 5277655813324800]) simp_all

lemma lit_7_20: "float_lit (7 / 20) = L_val"
  by (simp add: L_val_def)

lemma nominal_in_bounds: "in_bounds (Fin 2) (Fin 6) L_val"
  by (simp add: in_bounds_def xl_def xu_def lit_half lit_50 lit_150 float_lit_1 lit_7_20
      L_val_value)

lemma returns_projr: "\<exists>p. m = Inr p \<Longrightarrow> m = Inr (projr m)"
  by auto

section \<open>The claims on the analytical evaluator\<close>

text \<open>
  C1 (as amended). For every input whose three dimensions lie between \<open>2\<^sup>-\<^sup>2\<^sup>0\<^sup>0\<close> and
  \<open>2\<^sup>2\<^sup>0\<^sup>0\<close>, which holds inside the optimizer's bounds, \<^verbatim>\<open>compute_performances\<close> returns a
  record whose delay, powers and area are strictly positive and finite, with
  \<^verbatim>\<open>power_total = power_dyn + power_stat\<close>.
\<close>

theorem C1_positive_finite:
  "(between Wn (- 200) 200 \<and> between Wp (- 200) 200 \<and> between L (- 200) 200 \<longrightarrow>
      (\<exists>p. compute_performances Wn Wp L = Inr p
         \<and> py_gt (delay p) (Fin 0) \<and> isfinite (delay p)
         \<and> py_gt (power_dyn p) (Fin 0) \<and> isfinite (power_dyn p)
         \<and> py_gt (power_stat p) (Fin 0) \<and> isfinite (power_stat p)
         \<and> py_gt (power_total p) (Fin 0) \<and> isfinite (power_total p)
         \<and> py_gt (area p) (Fin 0) \<and> isfinite (area p)
         \<and> power_total p = py_add (power_dyn p) (power_stat p)))
   \<and> (in_bounds Wn Wp L \<longrightarrow>
        between Wn (- 200) 200 \<and> between Wp (- 200) 200 \<and> between L (- 200) 200)"
proof (intro conjI impI)
  assume "between Wn (- 200) 200 \<and> between Wp (- 200) 200 \<and> between L (- 200) 200"
  then obtain p where p: "compute_performances Wn Wp L = Inr p" "between (delay p) (- 440) 372"
    "between (power_dyn p) (- 19) (- 15)" "between (power_stat p) (- 26) (- 24)"
    "between (power_total p) (- 19) (- 14)" "between (area p) (- 399) 403"
    "power_total p = py_add (power_dyn p) (power_stat p)"
    using compute_performances_wide by blast
  show "\<exists>p. compute_performances Wn Wp L = Inr p
         \<and> py_gt (delay p) (Fin 0) \<and> isfinite (delay p)
         \<and> py_gt (power_dyn p) (Fin 0) \<and> isfinite (power_dyn p)
         \<and> py_gt (power_stat p) (Fin 0) \<and> isfinite (power_stat p)
         \<and> py_gt (power_total p) (Fin 0) \<and> isfinite (power_total p)
         \<and> py_gt (area p) (Fin 0) \<and> isfinite (area p)
         \<and> power_total p = py_add (power_dyn p) (power_stat p)"
    using p(1,7) between_pos[OF p(2)] between_pos[OF p(3)] between_pos[OF p(4)]
      between_pos[OF p(5)] between_pos[OF p(6)] by blast
next
  assume b: "in_bounds Wn Wp L"
  show "between Wn (- 200) 200" by (rule between_weaken[OF in_bounds_between(1)[OF b]]) simp_all
  show "between Wp (- 200) 200" by (rule between_weaken[OF in_bounds_between(2)[OF b]]) simp_all
  show "between L (- 200) 200" by (rule between_weaken[OF in_bounds_between(3)[OF b]]) simp_all
qed

theorem C1_positive_finite_witness:
  "in_bounds (Fin 2) (Fin 6) L_val
   \<and> compute_performances (Fin 2) (Fin 6) L_val
       = Inr (projr (compute_performances (Fin 2) (Fin 6) L_val))
   \<and> py_gt (delay (projr (compute_performances (Fin 2) (Fin 6) L_val))) (Fin 0)
   \<and> isfinite (area (projr (compute_performances (Fin 2) (Fin 6) L_val)))"
proof -
  note t = C1_positive_finite[of "Fin 2" "Fin 6" L_val]
  from t nominal_in_bounds
  have "between (Fin 2) (- 200) 200 \<and> between (Fin 6) (- 200) 200 \<and> between L_val (- 200) 200"
    by blast
  with t obtain p where "compute_performances (Fin 2) (Fin 6) L_val = Inr p"
    "py_gt (delay p) (Fin 0)" "isfinite (area p)" by blast
  then show ?thesis using nominal_in_bounds by simp
qed

text \<open>For all positive inputs the claim fails: the sum of two huge widths overflows, so the
  area is infinite; and a channel length so small that its value in metres rounds to zero
  makes the division \<^verbatim>\<open>Wn_m / L_m\<close> raise.\<close>

theorem C1_overflow_counterexample:
  "py_gt (Fin (2 powi 1023)) (Fin 0) \<and> py_gt (Fin (2 powi 1000)) (Fin 0)
   \<and> map_sum id area (compute_performances (Fin (2 powi 1023)) (Fin (2 powi 1023))
        (Fin (2 powi 1000))) = Inr PInf
   \<and> py_gt (Fin 1) (Fin 0) \<and> py_gt (Fin (2 powi (- 1074))) (Fin 0)
   \<and> compute_performances (Fin 1) (Fin 1) (Fin (2 powi (- 1074))) = Inl ZeroDivisionError"
proof -
  let ?W = "Fin (2 powi 1023)" and ?L = "Fin (2 powi 1000)" and ?l = "Fin (2 powi (- 1074))"
  from leg_on[OF pow2_between pow2_between KPRIME_N_range VOD_N_range, of 1023 1000]
  obtain R_n where n: "(if py_gt (py_mul ?W (float_lit (1 / 10 ^ 6))) (Fin 0)
              then bind_exn (py_truediv (py_mul ?W (float_lit (1 / 10 ^ 6)))
                               (py_mul ?L (float_lit (1 / 10 ^ 6))))
                     (\<lambda>q. py_truediv (float_lit 1) (py_mul (py_mul KPRIME_N q) (py_sub VDD VTH_N)))
              else Inr (float_lit (10 ^ 12))) = Inr R_n"
    by auto
  from leg_on[OF pow2_between pow2_between KPRIME_P_range VOD_P_range, of 1023 1000]
  obtain R_p where p: "(if py_gt (py_mul ?W (float_lit (1 / 10 ^ 6))) (Fin 0)
              then bind_exn (py_truediv (py_mul ?W (float_lit (1 / 10 ^ 6)))
                               (py_mul ?L (float_lit (1 / 10 ^ 6))))
                     (\<lambda>q. py_truediv (float_lit 1) (py_mul (py_mul KPRIME_P q) (py_sub VDD VTH_P)))
              else Inr (float_lit (10 ^ 12))) = Inr R_p"
    by auto
  have "(2::real) powi 1024 = 2 powi (1023 + 1)" by simp
  also have "\<dots> = 2 powi 1023 * 2 powi 1" by (rule power_int_add) simp
  finally have "overflow_limit \<le> 2 powi 1023 + 2 powi 1023"
    unfolding overflow_limit_def by (simp del: power_int_numeral)
  then have s: "py_add ?W ?W = PInf" by (simp add: rnd_overflow del: power_int_numeral)
  have "0 < (2::real) powi 1000" by (rule zero_less_power_int) simp
  then have L0: "\<not> (2::real) powi 1000 < 0" "(2::real) powi 1000 \<noteq> 0" by linarith+
  have "py_mul (py_mul (py_add ?W ?W) ?L) (float_lit 3) = PInf"
    unfolding s using L0 by (simp add: float_lit_3 del: power_int_numeral)
  then have a: "map_sum id area (compute_performances ?W ?W ?L) = Inr PInf"
    unfolding compute_performances_legs[OF n p] by simp
  have "between (float_lit (1 / 1000000)) (- 20) (- 19)" using micro_range by simp
  then obtain c where c: "float_lit (1 / 1000000) = Fin c" "2 powi (- 20) \<le> c" "c \<le> 2 powi (- 19)"
    by (rule betweenE)
  have c0: "0 < c" using c(2) by (rule powi2_le_pos)
  have "(2::real) powi (- 19) \<le> 2 powi (- 1)" by (rule powi2_mono) simp
  with c(3) have "c \<le> 2 powi (- 1)" by simp
  then have "2 powi (- 1074) * c \<le> 2 powi (- 1074) * 2 powi (- 1)"
    by (intro mult_left_mono) simp_all
  also have "\<dots> = 2 powi (- 1074 + - 1)" by (rule power_int_add[symmetric]) simp
  finally have "\<bar>2 powi (- 1074) * c\<bar> \<le> 2 powi (- 1075)" using c0 by (simp add: abs_mult)
  then have "rnd (2 powi (- 1074) * c) = Fin 0" by (rule rnd_tiny)
  then have z: "py_mul ?l (float_lit (1 / 10 ^ 6)) = Fin 0" using c(1) by simp
  have one: "between (Fin 1) 0 0" by simp
  have r: "compute_performances (Fin 1) (Fin 1) ?l = Inl ZeroDivisionError"
    by (rule compute_performances_raises_n, rule leg_zero_length[OF one _ _ z]) simp_all
  have g: "py_gt ?W (Fin 0)" "py_gt ?L (Fin 0)" "py_gt (Fin 1) (Fin 0)" "py_gt ?l (Fin 0)"
    by (simp_all add: py_gt_def del: power_int_numeral power_int_minus)
  from g a r show ?thesis by blast
qed

text \<open>
  C2 (as amended). Let \<open>Wn \<le> 0\<close>, the channel length be between \<open>2\<^sup>-\<^sup>2\<^sup>0\<^sup>0\<close> and \<open>2\<^sup>2\<^sup>0\<^sup>0\<close>, and
  the PMOS width be nonpositive or in that range. Then the conditional expression of the
  NMOS resistance takes its \<^verbatim>\<open>else\<close> branch and is the sentinel \<^verbatim>\<open>1e12\<close>; the one of the PMOS
  resistance has a value \<open>R_p\<close> (no division by zero); \<^verbatim>\<open>compute_performances\<close> returns, with
  the delay \<^verbatim>\<open>(0.69 * 1e12 * CL + 0.69 * R_p * CL) / 2.0\<close>; and this delay is strictly greater
  than the delay of every input inside the optimizer's bounds. The same holds with the two
  transistors exchanged.
\<close>

theorem C2_degenerate_width:
  "(py_le Wn (Fin 0) \<and> (py_le Wp (Fin 0) \<or> between Wp (- 200) 200) \<and> between L (- 200) 200
      \<and> in_bounds Wn' Wp' L' \<longrightarrow>
      (if py_gt (py_mul Wn (float_lit (1 / 10 ^ 6))) (Fin 0)
          then bind_exn (py_truediv (py_mul Wn (float_lit (1 / 10 ^ 6)))
                           (py_mul L (float_lit (1 / 10 ^ 6))))
                 (\<lambda>q. py_truediv (float_lit 1) (py_mul (py_mul KPRIME_N q) (py_sub VDD VTH_N)))
          else Inr (float_lit (10 ^ 12))) = Inr (float_lit (10 ^ 12))
      \<and> (\<exists>R_p p p'.
           (if py_gt (py_mul Wp (float_lit (1 / 10 ^ 6))) (Fin 0)
          then bind_exn (py_truediv (py_mul Wp (float_lit (1 / 10 ^ 6)))
                           (py_mul L (float_lit (1 / 10 ^ 6))))
                 (\<lambda>q. py_truediv (float_lit 1) (py_mul (py_mul KPRIME_P q) (py_sub VDD VTH_P)))
          else Inr (float_lit (10 ^ 12))) = Inr R_p
         \<and> compute_performances Wn Wp L = Inr p
         \<and> delay p = ieee_div (py_add (py_mul (py_mul ALPHA_DELAY (float_lit (10 ^ 12))) CL)
                                 (py_mul (py_mul ALPHA_DELAY R_p) CL)) (Fin 2)
         \<and> compute_performances Wn' Wp' L' = Inr p' \<and> py_gt (delay p) (delay p')))
   \<and> (py_le Wp (Fin 0) \<and> (py_le Wn (Fin 0) \<or> between Wn (- 200) 200) \<and> between L (- 200) 200
      \<and> in_bounds Wn' Wp' L' \<longrightarrow>
      (if py_gt (py_mul Wp (float_lit (1 / 10 ^ 6))) (Fin 0)
          then bind_exn (py_truediv (py_mul Wp (float_lit (1 / 10 ^ 6)))
                           (py_mul L (float_lit (1 / 10 ^ 6))))
                 (\<lambda>q. py_truediv (float_lit 1) (py_mul (py_mul KPRIME_P q) (py_sub VDD VTH_P)))
          else Inr (float_lit (10 ^ 12))) = Inr (float_lit (10 ^ 12))
      \<and> (\<exists>R_n p p'.
           (if py_gt (py_mul Wn (float_lit (1 / 10 ^ 6))) (Fin 0)
          then bind_exn (py_truediv (py_mul Wn (float_lit (1 / 10 ^ 6)))
                           (py_mul L (float_lit (1 / 10 ^ 6))))
                 (\<lambda>q. py_truediv (float_lit 1) (py_mul (py_mul KPRIME_N q) (py_sub VDD VTH_N)))
          else Inr (float_lit (10 ^ 12))) = Inr R_n
         \<and> compute_performances Wn Wp L = Inr p
         \<and> delay p = ieee_div (py_add (py_mul (py_mul ALPHA_DELAY R_n) CL)
                                 (py_mul (py_mul ALPHA_DELAY (float_lit (10 ^ 12))) CL)) (Fin 2)
         \<and> compute_performances Wn' Wp' L' = Inr p' \<and> py_gt (delay p) (delay p')))"
proof (intro conjI impI)
  assume a: "py_le Wn (Fin 0) \<and> (py_le Wp (Fin 0) \<or> between Wp (- 200) 200)
      \<and> between L (- 200) 200 \<and> in_bounds Wn' Wp' L'"
  then show "(if py_gt (py_mul Wn (float_lit (1 / 10 ^ 6))) (Fin 0)
          then bind_exn (py_truediv (py_mul Wn (float_lit (1 / 10 ^ 6)))
                           (py_mul L (float_lit (1 / 10 ^ 6))))
                 (\<lambda>q. py_truediv (float_lit 1) (py_mul (py_mul KPRIME_N q) (py_sub VDD VTH_N)))
          else Inr (float_lit (10 ^ 12))) = Inr (float_lit (10 ^ 12))"
    using leg_off by blast
  from a obtain R_p p where p: "(if py_gt (py_mul Wp (float_lit (1 / 10 ^ 6))) (Fin 0)
          then bind_exn (py_truediv (py_mul Wp (float_lit (1 / 10 ^ 6)))
                           (py_mul L (float_lit (1 / 10 ^ 6))))
                 (\<lambda>q. py_truediv (float_lit 1) (py_mul (py_mul KPRIME_P q) (py_sub VDD VTH_P)))
          else Inr (float_lit (10 ^ 12))) = Inr R_p"
    "compute_performances Wn Wp L = Inr p"
    "delay p = ieee_div (py_add (py_mul (py_mul ALPHA_DELAY (float_lit (10 ^ 12))) CL)
                                 (py_mul (py_mul ALPHA_DELAY R_p) CL)) (Fin 2)"
    "between (delay p) (- 10) 372"
    using degenerate_nmos[of Wn Wp L] by blast
  from a obtain p' where p': "compute_performances Wn' Wp' L' = Inr p'"
    "between (delay p') (- 49) (- 27)"
    using compute_performances_declared by blast
  have "py_gt (delay p) (delay p')" by (rule between_gt[OF p(4) p'(2)]) simp
  with p(1,2,3) p'(1) show "\<exists>R_p p p'.
           (if py_gt (py_mul Wp (float_lit (1 / 10 ^ 6))) (Fin 0)
          then bind_exn (py_truediv (py_mul Wp (float_lit (1 / 10 ^ 6)))
                           (py_mul L (float_lit (1 / 10 ^ 6))))
                 (\<lambda>q. py_truediv (float_lit 1) (py_mul (py_mul KPRIME_P q) (py_sub VDD VTH_P)))
          else Inr (float_lit (10 ^ 12))) = Inr R_p
         \<and> compute_performances Wn Wp L = Inr p
         \<and> delay p = ieee_div (py_add (py_mul (py_mul ALPHA_DELAY (float_lit (10 ^ 12))) CL)
                                 (py_mul (py_mul ALPHA_DELAY R_p) CL)) (Fin 2)
         \<and> compute_performances Wn' Wp' L' = Inr p' \<and> py_gt (delay p) (delay p')"
    by blast
next
  assume a: "py_le Wp (Fin 0) \<and> (py_le Wn (Fin 0) \<or> between Wn (- 200) 200)
      \<and> between L (- 200) 200 \<and> in_bounds Wn' Wp' L'"
  then show "(if py_gt (py_mul Wp (float_lit (1 / 10 ^ 6))) (Fin 0)
          then bind_exn (py_truediv (py_mul Wp (float_lit (1 / 10 ^ 6)))
                           (py_mul L (float_lit (1 / 10 ^ 6))))
                 (\<lambda>q. py_truediv (float_lit 1) (py_mul (py_mul KPRIME_P q) (py_sub VDD VTH_P)))
          else Inr (float_lit (10 ^ 12))) = Inr (float_lit (10 ^ 12))"
    using leg_off by blast
  from a obtain R_n p where p: "(if py_gt (py_mul Wn (float_lit (1 / 10 ^ 6))) (Fin 0)
          then bind_exn (py_truediv (py_mul Wn (float_lit (1 / 10 ^ 6)))
                           (py_mul L (float_lit (1 / 10 ^ 6))))
                 (\<lambda>q. py_truediv (float_lit 1) (py_mul (py_mul KPRIME_N q) (py_sub VDD VTH_N)))
          else Inr (float_lit (10 ^ 12))) = Inr R_n"
    "compute_performances Wn Wp L = Inr p"
    "delay p = ieee_div (py_add (py_mul (py_mul ALPHA_DELAY R_n) CL)
                                 (py_mul (py_mul ALPHA_DELAY (float_lit (10 ^ 12))) CL)) (Fin 2)"
    "between (delay p) (- 10) 372"
    using degenerate_pmos[of Wp Wn L] by blast
  from a obtain p' where p': "compute_performances Wn' Wp' L' = Inr p'"
    "between (delay p') (- 49) (- 27)"
    using compute_performances_declared by blast
  have "py_gt (delay p) (delay p')" by (rule between_gt[OF p(4) p'(2)]) simp
  with p(1,2,3) p'(1) show "\<exists>R_n p p'.
           (if py_gt (py_mul Wn (float_lit (1 / 10 ^ 6))) (Fin 0)
          then bind_exn (py_truediv (py_mul Wn (float_lit (1 / 10 ^ 6)))
                           (py_mul L (float_lit (1 / 10 ^ 6))))
                 (\<lambda>q. py_truediv (float_lit 1) (py_mul (py_mul KPRIME_N q) (py_sub VDD VTH_N)))
          else Inr (float_lit (10 ^ 12))) = Inr R_n
         \<and> compute_performances Wn Wp L = Inr p
         \<and> delay p = ieee_div (py_add (py_mul (py_mul ALPHA_DELAY R_n) CL)
                                 (py_mul (py_mul ALPHA_DELAY (float_lit (10 ^ 12))) CL)) (Fin 2)
         \<and> compute_performances Wn' Wp' L' = Inr p' \<and> py_gt (delay p) (delay p')"
    by blast
qed

theorem C2_degenerate_width_witness:
  "py_le (Fin 0) (Fin 0) \<and> between (Fin 6) (- 200) 200 \<and> between L_val (- 200) 200
   \<and> in_bounds (Fin 2) (Fin 6) L_val
   \<and> compute_performances (Fin 0) (Fin 6) L_val
       = Inr (projr (compute_performances (Fin 0) (Fin 6) L_val))
   \<and> py_gt (delay (projr (compute_performances (Fin 0) (Fin 6) L_val)))
        (delay (projr (compute_performances (Fin 2) (Fin 6) L_val)))
   \<and> py_gt (delay (projr (compute_performances (Fin 2) (Fin 0) L_val)))
        (delay (projr (compute_performances (Fin 2) (Fin 6) L_val)))
   \<and> delay (projr (compute_performances (Fin 0) (Fin 0) L_val))
       = ieee_div (py_add (py_mul (py_mul ALPHA_DELAY (float_lit (10 ^ 12))) CL)
                    (py_mul (py_mul ALPHA_DELAY (float_lit (10 ^ 12))) CL)) (Fin 2)"
proof -
  have l: "between L_val (- 200) 200"
    by (rule between_weaken[OF in_bounds_between(3)[OF nominal_in_bounds]]) simp_all
  have w: "between (Fin 6) (- 200) 200" "between (Fin 2) (- 200) 200"
    by (rule between_weaken[OF in_bounds_between(2)[OF nominal_in_bounds]], simp, simp)
      (rule between_weaken[OF in_bounds_between(1)[OF nominal_in_bounds]], simp, simp)
  have z: "py_le (Fin 0) (Fin 0)" by simp
  from C2_degenerate_width[of "Fin 0" "Fin 6" L_val "Fin 2" "Fin 6" L_val] z w l nominal_in_bounds
  obtain p p' where 1: "compute_performances (Fin 0) (Fin 6) L_val = Inr p"
    "compute_performances (Fin 2) (Fin 6) L_val = Inr p'" "py_gt (delay p) (delay p')"
    by blast
  from C2_degenerate_width[of "Fin 2" "Fin 0" L_val "Fin 2" "Fin 6" L_val] z w l nominal_in_bounds
  obtain q q' where 2: "compute_performances (Fin 2) (Fin 0) L_val = Inr q"
    "compute_performances (Fin 2) (Fin 6) L_val = Inr q'" "py_gt (delay q) (delay q')"
    by blast
  from C2_degenerate_width[of "Fin 0" "Fin 0" L_val "Fin 2" "Fin 6" L_val] z l nominal_in_bounds
  obtain R s where 3: "compute_performances (Fin 0) (Fin 0) L_val = Inr s"
    "(if py_gt (py_mul (Fin 0) (float_lit (1 / 10 ^ 6))) (Fin 0)
          then bind_exn (py_truediv (py_mul (Fin 0) (float_lit (1 / 10 ^ 6)))
                           (py_mul L_val (float_lit (1 / 10 ^ 6))))
                 (\<lambda>q. py_truediv (float_lit 1) (py_mul (py_mul KPRIME_P q) (py_sub VDD VTH_P)))
          else Inr (float_lit (10 ^ 12))) = Inr (float_lit (10 ^ 12))"
    "(if py_gt (py_mul (Fin 0) (float_lit (1 / 10 ^ 6))) (Fin 0)
          then bind_exn (py_truediv (py_mul (Fin 0) (float_lit (1 / 10 ^ 6)))
                           (py_mul L_val (float_lit (1 / 10 ^ 6))))
                 (\<lambda>q. py_truediv (float_lit 1) (py_mul (py_mul KPRIME_P q) (py_sub VDD VTH_P)))
          else Inr (float_lit (10 ^ 12))) = Inr R"
    "delay s = ieee_div (py_add (py_mul (py_mul ALPHA_DELAY (float_lit (10 ^ 12))) CL)
                                 (py_mul (py_mul ALPHA_DELAY R) CL)) (Fin 2)"
    by blast
  have "(Inr R :: exn + double) = Inr (float_lit (10 ^ 12))" using 3(2) unfolding 3(3) .
  then have "R = float_lit (10 ^ 12)" by (simp only: sum.inject)
  with 1 2 3(1,4) z w l nominal_in_bounds show ?thesis by simp
qed

text \<open>For every \<open>L > 0\<close> the claim fails: with a tiny PMOS width and a huge length the ratio
  \<^verbatim>\<open>Wp_m / L_m\<close> rounds to zero, and \<^verbatim>\<open>1.0 / (KPRIME_P * 0.0 * VOD_P)\<close> raises.\<close>

theorem C2_underflow_counterexample:
  "py_le (Fin 0) (Fin 0) \<and> py_gt (Fin (2 powi 600)) (Fin 0)
   \<and> compute_performances (Fin 0) (Fin (2 powi (- 600))) (Fin (2 powi 600))
       = Inl ZeroDivisionError"
proof -
  have z: "py_le (Fin 0) (Fin 0)" by simp
  note n = leg_off[OF z, of "Fin (2 powi 600)" KPRIME_N "py_sub VDD VTH_N"]
  have p: "(if py_gt (py_mul (Fin (2 powi (- 600))) (float_lit (1 / 10 ^ 6))) (Fin 0)
              then bind_exn (py_truediv (py_mul (Fin (2 powi (- 600))) (float_lit (1 / 10 ^ 6)))
                               (py_mul (Fin (2 powi 600)) (float_lit (1 / 10 ^ 6))))
                     (\<lambda>q. py_truediv (float_lit 1) (py_mul (py_mul KPRIME_P q) (py_sub VDD VTH_P)))
              else Inr (float_lit (10 ^ 12))) = Inl ZeroDivisionError"
    by (rule leg_zero_ratio[OF pow2_between pow2_between between_finite[OF KPRIME_P_range]
          between_finite[OF VOD_P_range]]) simp_all
  have "0 < (2::real) powi 600" by (rule zero_less_power_int) simp
  then have g: "py_gt (Fin (2 powi 600)) (Fin 0)" by (simp add: py_gt_def del: power_int_numeral)
  from z g compute_performances_raises_p[OF n p] show ?thesis by blast
qed

lemma sub_negative:
  assumes "2 powi i \<le> y - x" "y - x \<le> 2 powi j" "- 1022 \<le> i" "j \<le> 1023"
  shows "py_lt (py_sub (Fin x) (Fin y)) (Fin 0)"
proof -
  from rnd_between[OF assms] obtain z where z: "rnd (y - x) = Fin z" "2 powi i \<le> z" by blast
  have z0: "0 < z" using z(2) by (rule powi2_le_pos)
  have "x + - y = - (y - x)" by simp
  then have "rnd (x + - y) = Fin (- z)" using rnd_minus[of "y - x"] z(1) by simp
  then show ?thesis using z0 by (simp add: py_sub_def)
qed

lemma lit_near:
  assumes "2 powi k \<le> x" "x < 2 powi (k + 1)" "- 1022 \<le> k" "k \<le> 1022"
  obtains y where "float_lit x = Fin y" "\<bar>y - x\<bar> \<le> 2 powi (k - 53)"
  using rnd_error[OF assms] unfolding float_lit_def by blast

lemma residual_facts:
  "py_sub (float_lit (12 / 10)) (float_lit (12 / 10)) = Fin 0"
  "py_lt (py_sub (float_lit (119 / 100)) (float_lit (12 / 10))) (Fin 0)"
  "py_sub (float_lit (45 / 10)) (float_lit (45 / 10)) = Fin 0"
  "py_lt (py_sub (float_lit (45 / 10)) (float_lit (451 / 100))) (Fin 0)"
proof -
  show "py_sub (float_lit (12 / 10)) (float_lit (12 / 10)) = Fin 0"
    by (simp add: lit_12_10 py_sub_def)
  show "py_sub (float_lit (45 / 10)) (float_lit (45 / 10)) = Fin 0"
    by (simp add: lit_45_10 py_sub_def)
  obtain a where a: "float_lit (119 / 100) = Fin a" "\<bar>a - 119 / 100\<bar> \<le> 2 powi (0 - 53)"
    by (rule lit_near[of 0 "119 / 100"]) simp_all
  obtain b where b: "float_lit (12 / 10) = Fin b" "\<bar>b - 12 / 10\<bar> \<le> 2 powi (0 - 53)"
    by (rule lit_near[of 0 "12 / 10"]) simp_all
  have e: "(2::real) powi (0 - 53) \<le> 1 / 1024" by simp
  have f: "(2::real) powi (- 7) = 1 / 128" "(2::real) powi (- 6) = 1 / 64" by simp_all
  have "2 powi (- 7) \<le> b - a" "b - a \<le> 2 powi (- 6)"
    unfolding f using a(2) b(2) e by linarith+
  then show "py_lt (py_sub (float_lit (119 / 100)) (float_lit (12 / 10))) (Fin 0)"
    unfolding a(1) b(1) by (rule sub_negative) simp_all
  obtain c where c: "float_lit (451 / 100) = Fin c" "\<bar>c - 451 / 100\<bar> \<le> 2 powi (2 - 53)"
    by (rule lit_near[of 2 "451 / 100"]) simp_all
  have d: "float_lit (45 / 10) = Fin (9 / 2)" using lit_45_10 by simp
  have e': "(2::real) powi (2 - 53) \<le> 1 / 1024" by simp
  have "2 powi (- 7) \<le> c - 9 / 2" "c - 9 / 2 \<le> 2 powi (- 6)"
    unfolding f using c(2) e' by linarith+
  then show "py_lt (py_sub (float_lit (45 / 10)) (float_lit (451 / 100))) (Fin 0)"
    unfolding c(1) d by (rule sub_negative) simp_all
qed

lemma constraints_above:
  assumes "py_gt Wn (float_lit (1 / 100))" "compute_performances Wn Wp L = Inr p"
  shows "map_sum id snd (compute_performances_for_optim (Wn # Wp # L # rest)) =
           Inr [py_sub (ieee_div Wp Wn) (float_lit (12 / 10)),
                py_sub (float_lit (45 / 10)) (ieee_div Wp Wn)]"
  using assms above_threshold_nonzero[OF assms(1)]
  by (simp add: compute_performances_for_optim_def bind_exn_def Let_def py_truediv_def)

lemma constraints_below:
  assumes "\<not> py_gt Wn (float_lit (1 / 100))" "compute_performances Wn Wp L = Inr p"
  shows "map_sum id snd (compute_performances_for_optim (Wn # Wp # L # rest)) =
           Inr [py_sub (float_lit 1) (float_lit (12 / 10)),
                py_sub (float_lit (45 / 10)) (float_lit 1)]"
  using assms by (simp add: compute_performances_for_optim_def bind_exn_def Let_def)

lemma optim_raises:
  "compute_performances Wn Wp L = Inl e \<Longrightarrow>
     compute_performances_for_optim (Wn # Wp # L # rest) = Inl e"
  by (simp add: compute_performances_for_optim_def bind_exn_def)

lemma zero_length:
  "py_mul (Fin 0) (float_lit (1 / 10 ^ 6)) = Fin 0"
proof -
  have "between (float_lit (1 / 1000000)) (- 20) (- 19)" using micro_range by simp
  then obtain c where "float_lit (1 / 1000000) = Fin c" by (rule betweenE)
  then show ?thesis by simp
qed

text \<open>
  C4 (as amended). For every parameter vector with \<open>Wn\<close> above the threshold 0.01 on which
  \<^verbatim>\<open>compute_performances\<close> returns, the constraints returned are
  \<^verbatim>\<open>[Wp/Wn - 1.2, 4.5 - Wp/Wn]\<close>. The first residual is 0 for the ratio 1.2 and negative for
  1.19; the second is 0 for the ratio 4.5 and negative for 4.51.
\<close>

theorem C4_ratio_residuals:
  "(py_gt Wn (float_lit (1 / 100)) \<and> compute_performances Wn Wp L = Inr p \<longrightarrow>
      map_sum id snd (compute_performances_for_optim (Wn # Wp # L # rest)) =
        Inr [py_sub (ieee_div Wp Wn) (float_lit (12 / 10)),
             py_sub (float_lit (45 / 10)) (ieee_div Wp Wn)])
   \<and> py_sub (float_lit (12 / 10)) (float_lit (12 / 10)) = Fin 0
   \<and> py_lt (py_sub (float_lit (119 / 100)) (float_lit (12 / 10))) (Fin 0)
   \<and> py_sub (float_lit (45 / 10)) (float_lit (45 / 10)) = Fin 0
   \<and> py_lt (py_sub (float_lit (45 / 10)) (float_lit (451 / 100))) (Fin 0)"
  using constraints_above residual_facts by blast

theorem C4_ratio_residuals_witness:
  "py_gt (Fin 2) (float_lit (1 / 100))
   \<and> compute_performances (Fin 2) (Fin 6) L_val
       = Inr (projr (compute_performances (Fin 2) (Fin 6) L_val))
   \<and> map_sum id snd (compute_performances_for_optim [Fin 2, Fin 6, L_val]) =
        Inr [py_sub (ieee_div (Fin 6) (Fin 2)) (float_lit (12 / 10)),
             py_sub (float_lit (45 / 10)) (ieee_div (Fin 6) (Fin 2))]"
proof -
  have g: "py_gt (Fin 2) (float_lit (1 / 100))"
    using between_gt[of "Fin 2" 1 1 "float_lit (1 / 100)" "- 7" "- 6"] threshold_range by simp
  have r: "compute_performances (Fin 2) (Fin 6) L_val
             = Inr (projr (compute_performances (Fin 2) (Fin 6) L_val))"
    using compute_performances_declared[OF nominal_in_bounds] by (intro returns_projr) blast
  from C4_ratio_residuals[of "Fin 2" "Fin 6" L_val
      "projr (compute_performances (Fin 2) (Fin 6) L_val)" "[]"] g r
  show ?thesis by blast
qed

text \<open>The claim as stated fails on a vector with a zero channel length: the evaluation
  raises before any constraint is computed.\<close>

theorem C4_zero_length_counterexample:
  "py_gt (Fin 1) (float_lit (1 / 100))
   \<and> compute_performances_for_optim [Fin 1, Fin 3, Fin 0] = Inl ZeroDivisionError"
proof -
  have g: "py_gt (Fin 1) (float_lit (1 / 100))"
    using between_gt[of "Fin 1" 0 0 "float_lit (1 / 100)" "- 7" "- 6"] threshold_range by simp
  have one: "between (Fin 1) 0 0" by simp
  have "compute_performances (Fin 1) (Fin 3) (Fin 0) = Inl ZeroDivisionError"
    by (rule compute_performances_raises_n, rule leg_zero_length[OF one _ _ zero_length]) simp_all
  from g optim_raises[OF this] show ?thesis by blast
qed

text \<open>
  C5 (as amended). For every parameter vector with \<open>Wn\<close> at or below the threshold 0.01 on
  which \<^verbatim>\<open>compute_performances\<close> returns, the ratio is 1.0 whatever \<open>Wp\<close> is: the constraints
  returned are \<^verbatim>\<open>[1.0 - 1.2, 4.5 - 1.0]\<close>, and \<open>Wp\<close> is not divided by \<open>Wn\<close>. The evaluation
  returns for \<open>Wn \<le> 0\<close> when the channel length lies between \<open>2\<^sup>-\<^sup>2\<^sup>0\<^sup>0\<close> and \<open>2\<^sup>2\<^sup>0\<^sup>0\<close> and
  \<open>Wp\<close> is nonpositive or in that range.
\<close>

theorem C5_forced_ratio:
  "(py_le Wn (float_lit (1 / 100)) \<and> compute_performances Wn Wp L = Inr p \<longrightarrow>
      map_sum id snd (compute_performances_for_optim (Wn # Wp # L # rest)) =
        Inr [py_sub (float_lit 1) (float_lit (12 / 10)),
             py_sub (float_lit (45 / 10)) (float_lit 1)])
   \<and> (py_le Wn (Fin 0) \<and> (py_le Wp (Fin 0) \<or> between Wp (- 200) 200)
        \<and> between L (- 200) 200 \<longrightarrow>
        py_le Wn (float_lit (1 / 100)) \<and> (\<exists>p. compute_performances Wn Wp L = Inr p))"
proof (intro conjI impI)
  assume a: "py_le Wn (float_lit (1 / 100)) \<and> compute_performances Wn Wp L = Inr p"
  then have "\<not> py_gt Wn (float_lit (1 / 100))"
    by (cases Wn; cases "float_lit (1 / 100)") (auto simp: py_gt_def)
  with a show "map_sum id snd (compute_performances_for_optim (Wn # Wp # L # rest)) =
        Inr [py_sub (float_lit 1) (float_lit (12 / 10)),
             py_sub (float_lit (45 / 10)) (float_lit 1)]"
    using constraints_below by blast
next
  assume a: "py_le Wn (Fin 0) \<and> (py_le Wp (Fin 0) \<or> between Wp (- 200) 200)
        \<and> between L (- 200) 200"
  from threshold_range obtain c where c: "float_lit (1 / 100) = Fin c" "2 powi (- 7) \<le> c"
    by (rule betweenE)
  have "0 < c" using c(2) by (rule powi2_le_pos)
  with a show "py_le Wn (float_lit (1 / 100))" unfolding c(1) by (cases Wn) auto
  from a show "\<exists>p. compute_performances Wn Wp L = Inr p" using degenerate_nmos by blast
qed

theorem C5_forced_ratio_witness:
  "py_le (Fin 0) (float_lit (1 / 100))
   \<and> compute_performances (Fin 0) (Fin 6) L_val
       = Inr (projr (compute_performances (Fin 0) (Fin 6) L_val))
   \<and> map_sum id snd (compute_performances_for_optim [Fin 0, Fin 6, L_val]) =
        Inr [py_sub (float_lit 1) (float_lit (12 / 10)),
             py_sub (float_lit (45 / 10)) (float_lit 1)]"
proof -
  have l: "between L_val (- 200) 200"
    by (rule between_weaken[OF in_bounds_between(3)[OF nominal_in_bounds]]) simp_all
  have w: "between (Fin 6) (- 200) 200"
    by (rule between_weaken[OF in_bounds_between(2)[OF nominal_in_bounds]]) simp_all
  have z: "py_le (Fin 0) (Fin 0)" by simp
  note t = C5_forced_ratio[of "Fin 0" "Fin 6" L_val
      "projr (compute_performances (Fin 0) (Fin 6) L_val)" "[]"]
  from t z w l have 1: "py_le (Fin 0) (float_lit (1 / 100))"
    and 2: "\<exists>p. compute_performances (Fin 0) (Fin 6) L_val = Inr p" by blast+
  from 2 have r: "compute_performances (Fin 0) (Fin 6) L_val
             = Inr (projr (compute_performances (Fin 0) (Fin 6) L_val))"
    by (rule returns_projr)
  from t 1 r show ?thesis by blast
qed

text \<open>The claim as stated fails on a vector with a zero channel length and a positive \<open>Wp\<close>:
  \<^verbatim>\<open>Wp_m / L_m\<close> raises.\<close>

theorem C5_zero_length_counterexample:
  "py_le (Fin 0) (float_lit (1 / 100))
   \<and> compute_performances_for_optim [Fin 0, Fin 1, Fin 0] = Inl ZeroDivisionError"
proof -
  from threshold_range obtain c where c: "float_lit (1 / 100) = Fin c" "2 powi (- 7) \<le> c"
    by (rule betweenE)
  have "0 < c" using c(2) by (rule powi2_le_pos)
  then have g: "py_le (Fin 0) (float_lit (1 / 100))" unfolding c(1) by simp
  have z: "py_le (Fin 0) (Fin 0)" by simp
  note n = leg_off[OF z, of "Fin 0" KPRIME_N "py_sub VDD VTH_N"]
  have one: "between (Fin 1) 0 0" by simp
  have p: "(if py_gt (py_mul (Fin 1) (float_lit (1 / 10 ^ 6))) (Fin 0)
              then bind_exn (py_truediv (py_mul (Fin 1) (float_lit (1 / 10 ^ 6)))
                               (py_mul (Fin 0) (float_lit (1 / 10 ^ 6))))
                     (\<lambda>q. py_truediv (float_lit 1) (py_mul (py_mul KPRIME_P q) (py_sub VDD VTH_P)))
              else Inr (float_lit (10 ^ 12))) = Inl ZeroDivisionError"
    by (rule leg_zero_length[OF one _ _ zero_length]) simp_all
  from g optim_raises[OF compute_performances_raises_p[OF n p]] show ?thesis by blast
qed

section \<open>The search inside \<^verbatim>\<open>optimize_with_simulator\<close>\<close>

lemma grid_candidates_in_bounds:
  assumes "(a, b) \<in> set [(Fin 1, Fin 3), (Fin 2, Fin 3), (Fin 2, Fin 6), (Fin 2, Fin 9),
                         (Fin 3, Fin 6), (Fin 3, Fin 9)]"
  shows "in_bounds a b L_val"
  using assms
  by (auto simp: in_bounds_def xl_def xu_def lit_half lit_50 lit_150 float_lit_1 lit_7_20
      L_val_value)

lemma incumbent_evaluable:
  assumes "grid_search sim = Inr st" "best_params st = Some p"
  shows "\<exists>a b perf. p = (a, b, L_val) \<and> compute_performances a b L_val = Inr perf"
proof -
  from grid_search_incumbent[OF assms(1)] assms(2)
  obtain a b where p: "p = (a, b, L_val)" "(a, b) \<in> set (evaluated st)" by blast
  from p(2) have "in_bounds a b L_val"
    unfolding grid_search_evaluated[OF assms(1)] by (rule grid_candidates_in_bounds)
  from compute_performances_declared[OF this] p(1) show ?thesis by blast
qed

lemma analytical_returns:
  assumes "grid_search sim = Inr st" "best_params st = Some p"
    and "import_perf h = Inr () \<or> import_perf h = Inl ImportError"
  shows "analytical_comparison h p = Inr ()"
proof -
  from incumbent_evaluable[OF assms(1,2)] obtain a b perf
    where "p = (a, b, L_val)" "compute_performances a b L_val = Inr perf" by blast
  with assms(3) show ?thesis by (auto simp: analytical_comparison_def bind_exn_def)
qed

lemma wrapper_unavailable: "optimize_with_simulator False h sim = Inr NotInstalled"
  by (simp add: optimize_with_simulator_def)

lemma wrapper_none:
  assumes "prepare h = Inr ()" "grid_search sim = Inr st" "best_params st = None"
  shows "optimize_with_simulator True h sim = Inr NoSuccess"
  using assms by (simp add: optimize_with_simulator_def bind_exn_def)

lemma wrapper_best:
  assumes "prepare h = Inr ()" "grid_search sim = Inr st" "best_params st = Some p"
    and "import_perf h = Inr () \<or> import_perf h = Inl ImportError"
    and "write_results h p (best_delay st) = Inr ()"
  shows "optimize_with_simulator True h sim = Inr (Best p (best_delay st))"
  using assms(1,2,3,5) analytical_returns[OF assms(2,3,4)]
  by (simp add: optimize_with_simulator_def bind_exn_def)

lemma wrapper_report:
  assumes "optimize_with_simulator True h sim = Inr r"
  shows "prepare h = Inr ()
         \<and> (\<exists>st. grid_search sim = Inr st
               \<and> r = (case best_params st of Some p \<Rightarrow> Best p (best_delay st) | None \<Rightarrow> NoSuccess))"
  using assms unfolding optimize_with_simulator_def bind_exn_def
  by (auto split: sum.splits option.splits)

lemma wrapper_prepare_raises:
  "prepare h = Inl e \<Longrightarrow> optimize_with_simulator True h sim = Inl e"
  by (simp add: optimize_with_simulator_def bind_exn_def)

text \<open>
  C8. The grid search hands to the simulator exactly the pairs of the grid whose ratio
  \<open>Wp / Wn\<close> lies in the closed interval from 1.2 to 4.5, in the order of the loops. A step
  changes the incumbent only for a successful outcome whose delay is strictly below the
  incumbent's; so the incumbent, when there is one, is a successful evaluated candidate, its
  delay is the recorded best delay, and no successful outcome has a smaller one. When every
  evaluated candidate fails there is no incumbent. The search returns whenever the simulator
  returns an outcome for each candidate. \<^verbatim>\<open>optimize_with_simulator\<close> runs the search once the
  output directory is prepared, and what it reports is the result of the search: the
  incumbent with its delay, written to the result file, or that no simulation succeeded.
\<close>

theorem C8_grid_search:
  "((\<forall>(a, b) \<in> set [(Fin 1, Fin 3), (Fin 2, Fin 3), (Fin 2, Fin 6), (Fin 2, Fin 9),
                      (Fin 3, Fin 6), (Fin 3, Fin 9)]. \<exists>r. sim a b L_val = Inr r)
      \<longrightarrow> (\<exists>st. grid_search sim = Inr st))
   \<and> (grid_search sim = Inr st \<longrightarrow>
        evaluated st = [(Fin 1, Fin 3), (Fin 2, Fin 3), (Fin 2, Fin 6), (Fin 2, Fin 9),
                        (Fin 3, Fin 6), (Fin 3, Fin 9)]
        \<and> evaluated st
            = filter (\<lambda>(Wn, Wp). ratio_in_window Wn Wp) (List.product Wn_values Wp_values)
        \<and> (\<forall>p. best_params st = Some p \<longrightarrow>
             (\<exists>a b r. p = (a, b, L_val) \<and> (a, b) \<in> set (evaluated st) \<and> sim a b L_val = Inr r
                \<and> success r \<and> delay_ns r = best_delay st))
        \<and> (\<forall>a b r. (a, b) \<in> set (evaluated st) \<longrightarrow> sim a b L_val = Inr r \<longrightarrow> success r
             \<longrightarrow> \<not> py_lt (delay_ns r) (best_delay st))
        \<and> ((\<forall>a b r. (a, b) \<in> set (evaluated st) \<longrightarrow> sim a b L_val = Inr r \<longrightarrow> \<not> success r)
             \<longrightarrow> best_params st = None
                 \<and> (prepare h = Inr () \<longrightarrow> optimize_with_simulator True h sim = Inr NoSuccess))
        \<and> (prepare h = Inr () \<and> best_params st = None
             \<longrightarrow> optimize_with_simulator True h sim = Inr NoSuccess)
        \<and> (prepare h = Inr () \<and> best_params st = Some p
              \<and> (import_perf h = Inr () \<or> import_perf h = Inl ImportError)
              \<and> write_results h p (best_delay st) = Inr ()
             \<longrightarrow> optimize_with_simulator True h sim = Inr (Best p (best_delay st))))
   \<and> (grid_body sim L Wn Wp s = Inr s'
        \<and> (best_params s' \<noteq> best_params s \<or> best_delay s' \<noteq> best_delay s)
       \<longrightarrow> (\<exists>r. sim Wn Wp L = Inr r \<and> success r \<and> py_lt (delay_ns r) (best_delay s)
              \<and> best_delay s' = delay_ns r \<and> best_params s' = Some (Wn, Wp, L)))
   \<and> optimize_with_simulator False h sim = Inr NotInstalled
   \<and> (prepare h = Inl e \<longrightarrow> optimize_with_simulator True h sim = Inl e)
   \<and> (optimize_with_simulator True h sim = Inr rep \<longrightarrow>
        prepare h = Inr ()
        \<and> (\<exists>st. grid_search sim = Inr st
              \<and> rep = (case best_params st of Some p \<Rightarrow> Best p (best_delay st)
                                            | None \<Rightarrow> NoSuccess)))"
proof (intro conjI impI)
  assume "\<forall>(a, b) \<in> set [(Fin 1, Fin 3), (Fin 2, Fin 3), (Fin 2, Fin 6), (Fin 2, Fin 9),
                      (Fin 3, Fin 6), (Fin 3, Fin 9)]. \<exists>r. sim a b L_val = Inr r"
  then show "\<exists>st. grid_search sim = Inr st" by (rule grid_search_returns)
next
  assume g: "grid_search sim = Inr st"
  show e: "evaluated st = [(Fin 1, Fin 3), (Fin 2, Fin 3), (Fin 2, Fin 6), (Fin 2, Fin 9),
                        (Fin 3, Fin 6), (Fin 3, Fin 9)]"
    by (rule grid_search_evaluated[OF g])
  show "evaluated st
            = filter (\<lambda>(Wn, Wp). ratio_in_window Wn Wp) (List.product Wn_values Wp_values)"
    unfolding e window_filter ..
  note i = grid_search_incumbent[OF g]
  show a: "\<forall>p. best_params st = Some p \<longrightarrow>
             (\<exists>a b r. p = (a, b, L_val) \<and> (a, b) \<in> set (evaluated st) \<and> sim a b L_val = Inr r
                \<and> success r \<and> delay_ns r = best_delay st)"
    by (rule conjunct1[OF i])
  show "\<forall>a b r. (a, b) \<in> set (evaluated st) \<longrightarrow> sim a b L_val = Inr r \<longrightarrow> success r
             \<longrightarrow> \<not> py_lt (delay_ns r) (best_delay st)"
    by (rule conjunct2[OF i])
  {
    assume f: "\<forall>a b r. (a, b) \<in> set (evaluated st) \<longrightarrow> sim a b L_val = Inr r \<longrightarrow> \<not> success r"
    show n: "best_params st = None"
    proof (cases "best_params st")
      case None
      then show ?thesis .
    next
      case (Some p)
      with a f show ?thesis by blast
    qed
    assume "prepare h = Inr ()"
    then show "optimize_with_simulator True h sim = Inr NoSuccess"
      using g n by (rule wrapper_none)
  }
  {
    assume "prepare h = Inr () \<and> best_params st = None"
    then show "optimize_with_simulator True h sim = Inr NoSuccess"
      using g wrapper_none by blast
  }
  {
    assume "prepare h = Inr () \<and> best_params st = Some p
              \<and> (import_perf h = Inr () \<or> import_perf h = Inl ImportError)
              \<and> write_results h p (best_delay st) = Inr ()"
    then show "optimize_with_simulator True h sim = Inr (Best p (best_delay st))"
      using g wrapper_best by blast
  }
next
  assume "grid_body sim L Wn Wp s = Inr s'
        \<and> (best_params s' \<noteq> best_params s \<or> best_delay s' \<noteq> best_delay s)"
  then show "\<exists>r. sim Wn Wp L = Inr r \<and> success r \<and> py_lt (delay_ns r) (best_delay s)
              \<and> best_delay s' = delay_ns r \<and> best_params s' = Some (Wn, Wp, L)"
    using grid_body_update by blast
next
  show "optimize_with_simulator False h sim = Inr NotInstalled" by (rule wrapper_unavailable)
next
  assume "prepare h = Inl e"
  then show "optimize_with_simulator True h sim = Inl e" by (rule wrapper_prepare_raises)
next
  assume r: "optimize_with_simulator True h sim = Inr rep"
  show "prepare h = Inr ()" by (rule conjunct1[OF wrapper_report[OF r]])
  show "\<exists>st. grid_search sim = Inr st
              \<and> rep = (case best_params st of Some p \<Rightarrow> Best p (best_delay st)
                                            | None \<Rightarrow> NoSuccess)"
    by (rule conjunct2[OF wrapper_report[OF r]])
qed

theorem C8_grid_search_witness:
  "grid_search sim_table =
     Inr \<lparr>best_delay = Fin (1 / 8), best_params = Some (Fin 2, Fin 9, L_val),
          evaluated = [(Fin 1, Fin 3), (Fin 2, Fin 3), (Fin 2, Fin 6), (Fin 2, Fin 9),
                       (Fin 3, Fin 6), (Fin 3, Fin 9)]\<rparr>
   \<and> sim_table (Fin 2) (Fin 9) L_val = Inr (measured (1 / 8))
   \<and> \<not> py_lt (delay_ns (measured (1 / 4))) (Fin (1 / 8))
   \<and> optimize_with_simulator True host_ok sim_table
       = Inr (Best (Fin 2, Fin 9, L_val) (Fin (1 / 8)))
   \<and> optimize_with_simulator True host_ok sim_all_fail = Inr NoSuccess
   \<and> optimize_with_simulator True host_no_directory sim_table = Inl OSError"
proof -
  let ?st = "\<lparr>best_delay = Fin (1 / 8), best_params = Some (Fin 2, Fin 9, L_val),
          evaluated = [(Fin 1, Fin 3), (Fin 2, Fin 3), (Fin 2, Fin 6), (Fin 2, Fin 9),
                       (Fin 3, Fin 6), (Fin 3, Fin 9)]\<rparr>"
  let ?sf = "\<lparr>best_delay = Fin 1000000000, best_params = None,
          evaluated = [(Fin 1, Fin 3), (Fin 2, Fin 3), (Fin 2, Fin 6), (Fin 2, Fin 9),
                       (Fin 3, Fin 6), (Fin 3, Fin 9)]\<rparr>"
  have f: "\<forall>a b r. (a, b) \<in> set (evaluated ?sf) \<longrightarrow> sim_all_fail a b L_val = Inr r \<longrightarrow> \<not> success r"
    by (auto simp: sim_all_fail_def FAILURE_def)
  have h: "prepare host_ok = Inr ()" "import_perf host_ok = Inr ()"
    "write_results host_ok (Fin 2, Fin 9, L_val) (best_delay ?st) = Inr ()"
    "prepare host_no_directory = Inl OSError"
    by (simp_all add: host_ok_def host_no_directory_def)
  have p: "best_params ?st = Some (Fin 2, Fin 9, L_val)" by simp
  have 1: "optimize_with_simulator True host_ok sim_all_fail = Inr NoSuccess"
    using C8_grid_search[of sim_all_fail ?sf host_ok] sim_all_fail_search f h(1) by blast
  have 2: "optimize_with_simulator True host_ok sim_table
             = Inr (Best (Fin 2, Fin 9, L_val) (best_delay ?st))"
    using C8_grid_search[of sim_table ?st host_ok "(Fin 2, Fin 9, L_val)"] sim_table_search
      h(1,2,3) p by blast
  have 3: "optimize_with_simulator True host_no_directory sim_table = Inl OSError"
    using C8_grid_search[of sim_table ?st host_no_directory _ _ _ _ _ _ OSError] h(4) by blast
  have 4: "sim_table (Fin 2) (Fin 9) L_val = Inr (measured (1 / 8))"
    by (simp add: sim_table_def)
  have 5: "\<not> py_lt (delay_ns (measured (1 / 4))) (Fin (1 / 8))"
    by (simp add: measured_def)
  from 1 2 3 4 5 show ?thesis using sim_table_search by simp
qed

end
